theory Spec2Isabelle
  imports Complex_Main
begin

section \<open>Python values shared by the modules\<close>

text \<open>
  The repository is Python. Its floats are modelled as real numbers where the claims
  verified below are about the case analysis, the wrap-around and the rounding of the
  code, not about the last bit of a double; in \<open>Vector.Multiply\<close>, whose claim is about
  the exceptions raised, the float arithmetic is a parameter instead. Exceptions are
  values of the type \<open>error\<close>; a function that can raise returns \<open>error + 'a\<close> with
  \<open>Inl\<close> the exception.
\<close>

datatype error = IndexError | ValueError | ZeroDivisionError | OverflowError

text \<open>
  Python's \<open>round(x, ndigits)\<close> on a float: the nearest multiple of \<open>10 ^ (- ndigits)\<close>,
  a tie going to the even neighbour. \<open>ndigits\<close> is a Python int and may be negative.
\<close>

definition round_half_even :: "real \<Rightarrow> int" where
  "round_half_even r =
     (let f = \<lfloor>r\<rfloor>; d = r - of_int f
      in if d < 1 / 2 then f
         else if 1 / 2 < d then f + 1
         else if even f then f else f + 1)"

definition py_round :: "real \<Rightarrow> int \<Rightarrow> real" where
  "py_round x ndigits =
     (if 0 \<le> ndigits
      then of_int (round_half_even (x * 10 ^ nat ndigits)) / 10 ^ nat ndigits
      else of_int (round_half_even (x / 10 ^ nat (- ndigits))) * 10 ^ nat (- ndigits))"

text \<open>\<open>math.degrees\<close>.\<close>

definition degrees :: "real \<Rightarrow> real" where
  "degrees r = r * 180 / pi"

text \<open>
  \<open>math.atan2(y, x)\<close> and \<open>numpy.arctan2(y, x)\<close> on real numbers: the angle of the point
  \<open>(x, y)\<close> in \<open>(- pi, pi]\<close>, and 0 at the origin.
\<close>

definition atan2 :: "real \<Rightarrow> real \<Rightarrow> real" where
  "atan2 y x =
     (if 0 < x then arctan (y / x)
      else if x < 0 then (if 0 \<le> y then arctan (y / x) + pi else arctan (y / x) - pi)
      else if 0 < y then pi / 2
      else if y < 0 then - (pi / 2)
      else 0)"

section \<open>Vector.py\<close>

text \<open>
  A vector is a Python list of floats. An argument that need not be a list (the functions
  that test \<open>isinstance(vector, list)\<close>) is a \<open>py_arg\<close>.
\<close>

datatype py_arg = PyList "real list" | PyNonList

subsection \<open>numpy helpers used by Vector.Angle\<close>

text \<open>\<open>numpy.linalg.norm\<close> of a one-dimensional array: the square root of the sum of squares.\<close>

definition la_norm :: "real list \<Rightarrow> real" where
  "la_norm v = sqrt (sum_list (map (\<lambda>c. c ^ 2) v))"

text \<open>\<open>numpy.dot\<close> of two one-dimensional arrays; it raises when the lengths differ.\<close>

definition np_dot :: "real list \<Rightarrow> real list \<Rightarrow> error + real" where
  "np_dot a b =
     (if length a = length b then Inr (sum_list (map (\<lambda>(p, q). p * q) (zip a b)))
      else Inl ValueError)"

text \<open>
  \<open>numpy.cross\<close>: the cross product of two 3-component arrays; for two 2-component arrays
  the z component alone, as a scalar (a one-element list here, whose norm is its absolute
  value); any other dimension raises.
\<close>

fun np_cross :: "real list \<Rightarrow> real list \<Rightarrow> error + real list" where
  "np_cross [a0, a1, a2] [b0, b1, b2] =
     Inr [a1 * b2 - a2 * b1, a2 * b0 - a0 * b2, a0 * b1 - a1 * b0]"
| "np_cross [a0, a1] [b0, b1] = Inr [a0 * b1 - a1 * b0]"
| "np_cross [a0, a1, a2] [b0, b1] = Inr [- (a2 * b1), a2 * b0, a0 * b1 - a1 * b0]"
| "np_cross [a0, a1] [b0, b1, b2] = Inr [a1 * b2, - (a0 * b2), a0 * b1 - a1 * b0]"
| "np_cross a b = Inl ValueError"

text \<open>A float result that may be not-a-number.\<close>

datatype fnum = Num real | NaN

subsection \<open>Vector.Angle\<close>

text \<open>
  The two norms are numpy floats, so \<open>n_v1 / n_v2\<close> does not raise on a zero norm: it is
  infinite, or not-a-number when both are zero. With exactly one zero norm the test
  \<open>abs(log10(...)) > 10\<close> holds, the zero vector is divided by its norm and the result is
  not-a-number. With both zero the test is false and the angle is \<open>atan2(0, 0) = 0\<close>.
\<close>

definition Angle :: "real list \<Rightarrow> real list \<Rightarrow> int \<Rightarrow> error + fnum" where
  "Angle vectorA vectorB mantissa =
     (let n_v1 = la_norm vectorA;
          n_v2 = la_norm vectorB;
          normalise = (n_v1 \<noteq> 0 \<or> n_v2 \<noteq> 0) \<and>
                      (n_v1 = 0 \<or> n_v2 = 0 \<or> 10 < \<bar>log 10 (n_v1 / n_v2)\<bar>)
      in if normalise \<and> (n_v1 = 0 \<or> n_v2 = 0) then
           (case np_dot vectorA vectorB of
              Inl e \<Rightarrow> Inl e
            | Inr _ \<Rightarrow> (case np_cross vectorA vectorB of Inl e \<Rightarrow> Inl e | Inr _ \<Rightarrow> Inr NaN))
         else
           (let vA = (if normalise then map (\<lambda>c. c / n_v1) vectorA else vectorA);
                vB = (if normalise then map (\<lambda>c. c / n_v2) vectorB else vectorB)
            in case np_dot vA vB of
                 Inl e \<Rightarrow> Inl e
               | Inr cosang \<Rightarrow>
                   (case np_cross vA vB of
                      Inl e \<Rightarrow> Inl e
                    | Inr c \<Rightarrow>
                        Inr (Num (py_round (degrees (atan2 (la_norm c) cosang)) mantissa)))))"

subsection \<open>Vector.AzimuthAltitude\<close>

record azimuth_altitude =
  azimuth :: real
  altitude :: real

text \<open>
  \<open>x, y, z = vector\<close> raises ValueError unless the vector has exactly three components.
  The result is the dictionary, or \<open>None\<close> for the undefined direction.
\<close>

fun AzimuthAltitude :: "real list \<Rightarrow> int \<Rightarrow> error + azimuth_altitude option" where
  "AzimuthAltitude [x, y, z] mantissa =
     (if x = 0 \<and> y = 0 then
        (if 0 < z then Inr (Some \<lparr>azimuth = 0, altitude = 90\<rparr>)
         else if z < 0 then Inr (Some \<lparr>azimuth = 0, altitude = - 90\<rparr>)
         else Inr None)
      else
        (let azimuth0 = degrees (atan2 y x);
             azimuth1 = (if 90 < azimuth0 then azimuth0 - 360 else azimuth0);
             azimuth2 = py_round (90 - azimuth1) mantissa;
             xy_distance = sqrt (x ^ 2 + y ^ 2);
             altitude0 = degrees (atan2 z xy_distance);
             altitude1 = py_round altitude0 mantissa
         in Inr (Some \<lparr>azimuth = azimuth2, altitude = altitude1\<rparr>)))"
| "AzimuthAltitude v mantissa = Inl ValueError"

text \<open>The spec's wording of the azimuth: a value wrapped into the range from 0 up to 360.\<close>

definition wrap360 :: "real \<Rightarrow> real" where
  "wrap360 v = v - 360 * of_int \<lfloor>v / 360\<rfloor>"

subsection \<open>Vector.Reverse\<close>

definition Reverse :: "py_arg \<Rightarrow> real list option" where
  "Reverse vector =
     (case vector of
        PyNonList \<Rightarrow> None
      | PyList v \<Rightarrow> Some (map (\<lambda>x. x * (- 1)) v))"

subsection \<open>Vector.Multiply\<close>

text \<open>
  \<open>Multiply\<close> is the one function here whose claim is about which exceptions it can
  raise, and that depends on the float arithmetic: \<open>value ** 2\<close> raises OverflowError when
  the square is out of range and gives 0.0 when it underflows, while \<open>+\<close>, \<open>*\<close>, \<open><\<close> and
  \<open>** 0.5\<close> on the sum never raise (they give inf or nan), and \<open>/\<close> raises
  ZeroDivisionError exactly on a divisor equal to zero. So the arithmetic is a parameter
  of the model: \<open>'f\<close> is the type of the floats, \<open>fis_zero\<close> the test \<open>== 0\<close> and \<open>fdiv\<close> the
  quotient by a divisor that is not zero.
\<close>

record 'f float_arith =
  fzero :: 'f
  fsquare :: "'f \<Rightarrow> error + 'f"
  fadd :: "'f \<Rightarrow> 'f \<Rightarrow> 'f"
  froot :: "'f \<Rightarrow> 'f"
  fless :: "'f \<Rightarrow> 'f \<Rightarrow> bool"
  fmul :: "'f \<Rightarrow> 'f \<Rightarrow> 'f"
  fis_zero :: "'f \<Rightarrow> bool"
  fdiv :: "'f \<Rightarrow> 'f \<Rightarrow> 'f"

text \<open>Python's float division raises on a zero divisor.\<close>

definition py_truediv :: "'f float_arith \<Rightarrow> 'f \<Rightarrow> 'f \<Rightarrow> error + 'f" where
  "py_truediv ar a b = (if fis_zero ar b then Inl ZeroDivisionError else Inr (fdiv ar a b))"

text \<open>The first loop: \<open>oldMag += value ** 2\<close> over the components.\<close>

fun sum_squares :: "'f float_arith \<Rightarrow> 'f list \<Rightarrow> 'f \<Rightarrow> error + 'f" where
  "sum_squares ar [] oldMag = Inr oldMag"
| "sum_squares ar (v # vs) oldMag =
     (case fsquare ar v of
        Inl e \<Rightarrow> Inl e
      | Inr s \<Rightarrow> sum_squares ar vs (fadd ar oldMag s))"

text \<open>The second loop: \<open>newVector.append(vector[i] * magnitude / oldMag)\<close>.\<close>

fun scale_loop ::
  "'f float_arith \<Rightarrow> 'f list \<Rightarrow> 'f \<Rightarrow> 'f \<Rightarrow> 'f list \<Rightarrow> error + 'f list" where
  "scale_loop ar [] magnitude oldMag newVector = Inr newVector"
| "scale_loop ar (v # vs) magnitude oldMag newVector =
     (case py_truediv ar (fmul ar v magnitude) oldMag of
        Inl e \<Rightarrow> Inl e
      | Inr c \<Rightarrow> scale_loop ar vs magnitude oldMag (newVector @ [c]))"

definition Multiply :: "'f float_arith \<Rightarrow> 'f list \<Rightarrow> 'f \<Rightarrow> 'f \<Rightarrow> error + 'f list" where
  "Multiply ar vector magnitude tolerance =
     (case sum_squares ar vector (fzero ar) of
        Inl e \<Rightarrow> Inl e
      | Inr sumsq \<Rightarrow>
          (let oldMag = froot ar sumsq
           in if fless ar oldMag tolerance then Inr [fzero ar, fzero ar, fzero ar]
              else scale_loop ar vector magnitude oldMag []))"

text \<open>
  Two arithmetics to run the model on. \<open>real_arith\<close> is exact arithmetic on the real
  numbers, in which no square is out of range. \<open>range_arith\<close> is exact arithmetic cut to
  the range of a double: a square of \<open>2 ^ 1024\<close> or more overflows, and a square of
  \<open>2 ^ (- 1075)\<close> or less underflows to 0.
\<close>

definition real_arith :: "real float_arith" where
  "real_arith =
     \<lparr>fzero = 0, fsquare = (\<lambda>v. Inr (v ^ 2)), fadd = (\<lambda>a b. a + b), froot = sqrt,
      fless = (\<lambda>a b. a < b), fmul = (\<lambda>a b. a * b), fis_zero = (\<lambda>v. v = 0),
      fdiv = (\<lambda>a b. a / b)\<rparr>"

definition range_arith :: "real float_arith" where
  "range_arith =
     \<lparr>fzero = 0,
      fsquare = (\<lambda>v. if 2 ^ 1024 \<le> v ^ 2 then Inl OverflowError
                     else if v ^ 2 * 2 ^ 1075 \<le> 1 then Inr 0
                     else Inr (v ^ 2)),
      fadd = (\<lambda>a b. a + b), froot = sqrt,
      fless = (\<lambda>a b. a < b), fmul = (\<lambda>a b. a * b), fis_zero = (\<lambda>v. v = 0),
      fdiv = (\<lambda>a b. a / b)\<rparr>"

subsection \<open>Vector.Coordinates\<close>

text \<open>\<open>str.lower\<close> on the ASCII letters; every other character is kept.\<close>

definition lower_char :: "char \<Rightarrow> char" where
  "lower_char c =
     (let k = of_char c :: nat
      in if 65 \<le> k \<and> k \<le> 90 then char_of (k + 32) else c)"

definition lower :: "string \<Rightarrow> string" where
  "lower s = map lower_char s"

text \<open>\<open>v[i]\<close> for a non-negative constant index \<open>i\<close>.\<close>

definition list_item :: "real list \<Rightarrow> nat \<Rightarrow> error + real" where
  "list_item v i = (if i < length v then Inr (v ! i) else Inl IndexError)"

datatype coordinates = CoordNone | CoordMatrix "real list list" | CoordList "real list"

text \<open>The loop over the characters of the lowered output type.\<close>

fun axis_loop :: "string \<Rightarrow> real \<Rightarrow> real \<Rightarrow> real \<Rightarrow> real list \<Rightarrow> real list" where
  "axis_loop [] x y z output = output"
| "axis_loop (axis # rest) x y z output =
     (if axis = CHR ''x'' then axis_loop rest x y z (output @ [x])
      else if axis = CHR ''y'' then axis_loop rest x y z (output @ [y])
      else if axis = CHR ''z'' then axis_loop rest x y z (output @ [z])
      else axis_loop rest x y z output)"

definition Coordinates :: "py_arg \<Rightarrow> string \<Rightarrow> int \<Rightarrow> error + coordinates" where
  "Coordinates vector outputType mantissa =
     (case vector of
        PyNonList \<Rightarrow> Inr CoordNone
      | PyList v \<Rightarrow>
          (case list_item v 0 of Inl e \<Rightarrow> Inl e | Inr v0 \<Rightarrow>
          (case list_item v 1 of Inl e \<Rightarrow> Inl e | Inr v1 \<Rightarrow>
          (case list_item v 2 of Inl e \<Rightarrow> Inl e | Inr v2 \<Rightarrow>
             (let x = py_round v0 mantissa;
                  y = py_round v1 mantissa;
                  z = py_round v2 mantissa;
                  matrix = [[1, 0, 0, x], [0, 1, 0, y], [0, 0, 1, z], [0, 0, 0, 1]];
                  outputType1 = lower outputType
              in if outputType1 = ''matrix'' then Inr (CoordMatrix matrix)
                 else Inr (CoordList (axis_loop outputType1 x y z [])))))))"

text \<open>
  The claim's wording of the result: the rounded component for each of the characters
  x, y and z of the lowered string, in the string's order.
\<close>

definition axis_components :: "string \<Rightarrow> real \<Rightarrow> real \<Rightarrow> real \<Rightarrow> real list" where
  "axis_components s x y z =
     map (\<lambda>c. if c = CHR ''x'' then x else if c = CHR ''y'' then y else z)
       (filter (\<lambda>c. c \<in> {CHR ''x'', CHR ''y'', CHR ''z''}) s)"

section \<open>Plotly.py: the face buffer of DataByTopology\<close>

text \<open>
  The geometry kernel is external. A kernel vertex is the triple of its coordinates;
  \<open>tp_verts\<close> is the list of the topology's vertices, and each triangle that
  \<open>Face.Triangulate\<close> returns is given by \<open>w_vertices\<close>, the vertices of its external
  boundary.
\<close>

type_synonym vertex = "real \<times> real \<times> real"

text \<open>
  Modelled from the spec: the coordinate match within a tolerance that \<open>Vertex.Index\<close>
  makes (topologicpy.Vertex is not among the source files). Two vertices match when
  their Euclidean distance is at most the tolerance, written here without the square
  root.
\<close>

definition within_tolerance :: "vertex \<Rightarrow> vertex \<Rightarrow> real \<Rightarrow> bool" where
  "within_tolerance a b tolerance =
     (case a of (ax, ay, az) \<Rightarrow> case b of (bx, by, bz) \<Rightarrow>
        0 \<le> tolerance \<and> (ax - bx) ^ 2 + (ay - by) ^ 2 + (az - bz) ^ 2 \<le> tolerance ^ 2)"

text \<open>
  Modelled from the spec: \<open>Vertex.Index\<close> of topologicpy.Vertex, which is not among the
  source files. The spec has it resolve a vertex to its position in the vertex list by
  coordinate match within the tolerance, the first positional match winning with no
  attempt to pick the closest, and report no index when nothing matches.
\<close>

fun Vertex_Index :: "vertex \<Rightarrow> vertex list \<Rightarrow> real \<Rightarrow> nat option" where
  "Vertex_Index vertex [] tolerance = None"
| "Vertex_Index vertex (u # us) tolerance =
     (if within_tolerance vertex u tolerance then Some 0
      else map_option Suc (Vertex_Index vertex us tolerance))"

text \<open>
  The retry loop of lines 834 to 838, for one corner:
  \<^verbatim>\<open>while i == None and tolerance < 3: i = Vertex.Index(...); tolerance = tolerance*10\<close>.
  The state is the pair of \<open>i\<close> and \<open>tolerance\<close>; \<open>index\<close> is the lookup of the corner at
  a given tolerance. The loop need not end, so the function is partial: \<open>None\<close> is the
  run that never leaves the loop, \<open>Some i\<close> the value of \<open>i\<close> after it.
\<close>

partial_function (option) lookup_loop ::
  "(real \<Rightarrow> nat option) \<Rightarrow> nat option \<Rightarrow> real \<Rightarrow> nat option option" where
  "lookup_loop index i tolerance =
     (if i = None \<and> tolerance < 3
      then lookup_loop index (index tolerance) (tolerance * 10)
      else Some i)"

declare lookup_loop.simps [code]

text \<open>
  The loop over the corners of one triangle: \<open>i\<close> and the tolerance are reset for each
  corner, and a resolved index is appended to \<open>temp_f\<close>.
\<close>

fun corners_loop ::
  "(vertex \<Rightarrow> real \<Rightarrow> nat option) \<Rightarrow> real \<Rightarrow> vertex list \<Rightarrow> nat list \<Rightarrow> nat list option" where
  "corners_loop index orig_tolerance [] temp_f = Some temp_f"
| "corners_loop index orig_tolerance (w_v # w_vertices) temp_f =
     (case lookup_loop (index w_v) None orig_tolerance of
        None \<Rightarrow> None
      | Some None \<Rightarrow> corners_loop index orig_tolerance w_vertices temp_f
      | Some (Some i) \<Rightarrow> corners_loop index orig_tolerance w_vertices (temp_f @ [i]))"

text \<open>The loop over the triangles: \<open>if len(temp_f) > 2: faces.append(temp_f)\<close>.\<close>

fun triangles_loop ::
  "(vertex \<Rightarrow> real \<Rightarrow> nat option) \<Rightarrow> real \<Rightarrow> vertex list list \<Rightarrow> nat list list
     \<Rightarrow> nat list list option" where
  "triangles_loop index orig_tolerance [] faces = Some faces"
| "triangles_loop index orig_tolerance (tri # triangles) faces =
     (case corners_loop index orig_tolerance tri [] of
        None \<Rightarrow> None
      | Some temp_f \<Rightarrow>
          triangles_loop index orig_tolerance triangles
            (if 2 < length temp_f then faces @ [temp_f] else faces))"

text \<open>
  The face buffer that \<open>DataByTopology\<close> hands to \<open>faceData\<close> (lines 827 to 842), from
  the topology's vertices, the corner lists of its triangles and the caller's tolerance.
\<close>

definition DataByTopology_faces ::
  "vertex list \<Rightarrow> vertex list list \<Rightarrow> real \<Rightarrow> nat list list option" where
  "DataByTopology_faces tp_verts triangles tolerance =
     triangles_loop (\<lambda>w_v t. Vertex_Index w_v tp_verts t) tolerance triangles []"

section \<open>Speckle.py: the mesh record\<close>


record speckle_mesh =
  vertices :: "real list"
  faces :: "int list"
  renderMaterial_Opacity :: real

subsection \<open>Speckle.mesh_to_speckle_mesh\<close>





subsection \<open>add_vertices and add_faces of Speckle.Object\<close>

text \<open>
  \<open>for i in range(0, len(sverts), 3)\<close> reads \<open>sverts[i]\<close>, \<open>sverts[i + 1]\<close> and
  \<open>sverts[i + 2]\<close>: a buffer whose length is not a multiple of three raises IndexError
  at its last, incomplete group.
\<close>

fun add_vertices_loop :: "real list \<Rightarrow> real \<Rightarrow> real list list \<Rightarrow> error + real list list" where
  "add_vertices_loop [] scale acc = Inr acc"
| "add_vertices_loop (a # b # c # rest) scale acc =
     add_vertices_loop rest scale (acc @ [[a * scale, b * scale, c * scale]])"
| "add_vertices_loop rest scale acc = Inl IndexError"

definition add_vertices :: "speckle_mesh \<Rightarrow> real \<Rightarrow> error + real list list" where
  "add_vertices m scale =
     (let sverts = vertices m
      in if sverts \<noteq> [] \<and> 0 < length sverts then add_vertices_loop sverts scale []
         else Inr [])"

text \<open>Python's \<open>xs[i]\<close> and \<open>xs[lo:hi]\<close> for any integers, negative ones counting from the end.\<close>

definition py_getitem :: "'a list \<Rightarrow> int \<Rightarrow> error + 'a" where
  "py_getitem xs i =
     (let n = int (length xs)
      in if 0 \<le> i \<and> i < n then Inr (xs ! nat i)
         else if - n \<le> i \<and> i < 0 then Inr (xs ! nat (n + i))
         else Inl IndexError)"

definition slice_bound :: "nat \<Rightarrow> int \<Rightarrow> nat" where
  "slice_bound n k = (if k < 0 then nat (max 0 (int n + k)) else min n (nat k))"

definition py_slice :: "'a list \<Rightarrow> int \<Rightarrow> int \<Rightarrow> 'a list" where
  "py_slice xs lo hi =
     (let a = slice_bound (length xs) lo; b = slice_bound (length xs) hi
      in take (b - a) (drop a xs))"

text \<open>
  The while loop of \<open>add_faces\<close>. A count below \<open>- 3\<close> moves \<open>i\<close> backwards, so the loop
  need not end: the function is partial, \<open>None\<close> being the run that never returns.
\<close>

partial_function (option) add_faces_loop ::
  "int list \<Rightarrow> int \<Rightarrow> int list list \<Rightarrow> (error + int list list) option" where
  "add_faces_loop sfaces i acc =
     (if i < int (length sfaces) then
        (case py_getitem sfaces i of
           Inl e \<Rightarrow> Some (Inl e)
         | Inr n0 \<Rightarrow>
             (let n = (if n0 < 3 then n0 + 3 else n0);
                  i1 = i + 1
              in add_faces_loop sfaces (i1 + n) (acc @ [py_slice sfaces i1 (i1 + n)])))
      else Some (Inr acc))"

declare add_faces_loop.simps [code]

text \<open>
  \<open>return faces\<close> stands inside the \<open>if\<close>: on an empty face buffer the function falls off
  its end and returns Python's \<open>None\<close>, the inner \<open>None\<close> here.
\<close>

definition add_faces :: "speckle_mesh \<Rightarrow> (error + int list list option) option" where
  "add_faces m =
     (let sfaces = faces m
      in if sfaces \<noteq> [] \<and> 0 < length sfaces then
           (case add_faces_loop sfaces 0 [] of
              None \<Rightarrow> None
            | Some (Inl e) \<Rightarrow> Some (Inl e)
            | Some (Inr fs) \<Rightarrow> Some (Inr (Some fs)))
         else Some (Inr None))"

text \<open>
  The layout of the face buffer in the claims' words: each face is its count followed by
  its run of indices.
\<close>

definition encode_faces :: "(int \<times> int list) list \<Rightarrow> int list" where
  "encode_faces es = concat (map (\<lambda>(n, run). n # run) es)"

section \<open>Speckle.py: the remote operations\<close>

text \<open>
  The collaboration service and its client library (specklepy) are external. A call to
  them either returns a value or raises; \<open>remote_exn\<close> is what it raises, and a call is a
  function into \<open>remote_exn + 'a\<close>. The client object is the record of its methods; the
  constructors and the module \<open>operations\<close> of specklepy are the record \<open>specklepy\<close>.
\<close>

datatype remote_exn = RemoteException string

record stream =
  stream_id :: string

record commit =
  commit_id :: string
  referencedObject :: string

record branch =
  branch_id :: string
  branch_name :: string
  commits_items :: "commit list"

record client =
  branch_list :: "string \<Rightarrow> remote_exn + branch list"
  branch_get :: "string \<Rightarrow> string \<Rightarrow> remote_exn + branch"
  stream_list :: "remote_exn + stream list"
  commit_list :: "string \<Rightarrow> remote_exn + commit list"
  commit_create :: "string \<Rightarrow> string \<Rightarrow> string \<Rightarrow> string \<Rightarrow> remote_exn + string"
  commit_delete :: "string \<Rightarrow> string \<Rightarrow> remote_exn + bool"
  authenticate_with_token :: "string \<Rightarrow> remote_exn + unit"

record wrapper =
  wrapper_stream_id :: string
  wrapper_commit_id :: string
  get_client :: "remote_exn + client"

type_synonym transport = string

text \<open>
  \<open>'d\<close> is the data a caller sends under a key, \<open>'o\<close> the object that a receive returns.
  \<open>getpass\<close> is what the user types at the prompt.
\<close>

record ('d, 'o) specklepy =
  SpeckleClient :: "string \<Rightarrow> remote_exn + client"
  StreamWrapper :: "string \<Rightarrow> remote_exn + wrapper"
  ServerTransport :: "string \<Rightarrow> client \<Rightarrow> remote_exn + transport"
  operations_send :: "(string \<times> 'd) list \<Rightarrow> transport list \<Rightarrow> remote_exn + string"
  operations_receive :: "string \<Rightarrow> transport \<Rightarrow> remote_exn + 'o"
  getpass :: "string option"

text \<open>The arguments \<open>confirm\<close> and \<open>run\<close> are tested for truth, whatever their type.\<close>

datatype py_value = PyNone | PyBool bool | PyInt int | PyStr string

fun truthy :: "py_value \<Rightarrow> bool" where
  "truthy PyNone = False"
| "truthy (PyBool b) = b"
| "truthy (PyInt i) = (i \<noteq> 0)"
| "truthy (PyStr s) = (s \<noteq> [])"

text \<open>The remote calls a function made, in order.\<close>

datatype remote_call = Commit_delete string string

subsection \<open>Speckle.SpeckleCommitDelete\<close>

text \<open>
  The one \<open>try\<close> of the module, with a bare \<open>except\<close>. The function never raises: the result
  is the returned value and the remote calls made.
\<close>

definition SpeckleCommitDelete ::
  "client \<Rightarrow> stream \<Rightarrow> commit \<Rightarrow> py_value \<Rightarrow> bool \<times> remote_call list" where
  "SpeckleCommitDelete client stream commit confirm =
     (if truthy confirm then
        (case commit_delete client (stream_id stream) (commit_id commit) of
           Inr deleted \<Rightarrow> (deleted, [Commit_delete (stream_id stream) (commit_id commit)])
         | Inl e \<Rightarrow> (False, [Commit_delete (stream_id stream) (commit_id commit)]))
      else (False, []))"

subsection \<open>The other remote operations\<close>

definition StreamsByClient :: "client \<Rightarrow> remote_exn + stream list" where
  "StreamsByClient item = stream_list item"

fun branch_get_loop ::
  "client \<Rightarrow> string \<Rightarrow> branch list \<Rightarrow> branch list \<Rightarrow> remote_exn + branch list" where
  "branch_get_loop client sid [] branches = Inr branches"
| "branch_get_loop client sid (b # bList) branches =
     (case branch_get client sid (branch_name b) of
        Inl e \<Rightarrow> Inl e
      | Inr br \<Rightarrow> branch_get_loop client sid bList (branches @ [br]))"

definition BranchesByStream :: "client \<Rightarrow> stream \<Rightarrow> remote_exn + branch list" where
  "BranchesByStream client stream =
     (case branch_list client (stream_id stream) of
        Inl e \<Rightarrow> Inl e
      | Inr bList \<Rightarrow> branch_get_loop client (stream_id stream) bList [])"

definition ClientByURL ::
  "('d, 'o) specklepy \<Rightarrow> string \<Rightarrow> string option \<Rightarrow> remote_exn + client option" where
  "ClientByURL api url token =
     (let token1 = (case token of None \<Rightarrow> getpass api | Some t \<Rightarrow> Some t)
      in case token1 of
           None \<Rightarrow> Inr None
         | Some t \<Rightarrow>
             (case SpeckleClient api url of
                Inl e \<Rightarrow> Inl e
              | Inr client \<Rightarrow>
                  (case authenticate_with_token client t of
                     Inl e \<Rightarrow> Inl e
                   | Inr _ \<Rightarrow> Inr (Some client))))"

text \<open>The local helpers \<open>streamByID\<close> and \<open>commitByID\<close>: the first element with the id.\<close>

fun streamByID :: "stream list \<Rightarrow> string \<Rightarrow> stream option" where
  "streamByID [] sid = None"
| "streamByID (s # streams) sid =
     (if stream_id s = sid then Some s else streamByID streams sid)"

fun commitByID :: "commit list \<Rightarrow> string \<Rightarrow> commit option" where
  "commitByID [] cid = None"
| "commitByID (c # commits) cid =
     (if commit_id c = cid then Some c else commitByID commits cid)"

definition SpeckleStreamByURL ::
  "('d, 'o) specklepy \<Rightarrow> string \<Rightarrow> string \<Rightarrow> remote_exn + stream option" where
  "SpeckleStreamByURL api url token =
     (case StreamWrapper api url of Inl e \<Rightarrow> Inl e | Inr wrapper \<Rightarrow>
     (case get_client wrapper of Inl e \<Rightarrow> Inl e | Inr client \<Rightarrow>
     (case authenticate_with_token client token of Inl e \<Rightarrow> Inl e | Inr _ \<Rightarrow>
     (case stream_list client of Inl e \<Rightarrow> Inl e | Inr streams \<Rightarrow>
        Inr (streamByID streams (wrapper_stream_id wrapper))))))"

definition SpeckleCommitByURL ::
  "('d, 'o) specklepy \<Rightarrow> string \<Rightarrow> string \<Rightarrow> remote_exn + commit option" where
  "SpeckleCommitByURL api url token =
     (case StreamWrapper api url of Inl e \<Rightarrow> Inl e | Inr wrapper \<Rightarrow>
     (case get_client wrapper of Inl e \<Rightarrow> Inl e | Inr client \<Rightarrow>
     (case authenticate_with_token client token of Inl e \<Rightarrow> Inl e | Inr _ \<Rightarrow>
     (case stream_list client of Inl e \<Rightarrow> Inl e | Inr streams \<Rightarrow>
     (case commit_list client (wrapper_stream_id wrapper) of Inl e \<Rightarrow> Inl e | Inr commits \<Rightarrow>
        Inr (commitByID commits (wrapper_commit_id wrapper)))))))"

text \<open>
  \<open>processBase\<close>, which turns the received object into a dictionary, is local and makes
  no remote call; it is a parameter here.
\<close>

definition SpeckleGlobalsByStream ::
  "('d, 'o) specklepy \<Rightarrow> ('o \<Rightarrow> 'r) \<Rightarrow> client \<Rightarrow> stream \<Rightarrow> remote_exn + 'r option" where
  "SpeckleGlobalsByStream api processBase client stream =
     (case ServerTransport api (stream_id stream) client of Inl e \<Rightarrow> Inl e | Inr transport \<Rightarrow>
     (case branch_get client (stream_id stream) ''globals'' of Inl e \<Rightarrow> Inl e | Inr branch \<Rightarrow>
        (case commits_items branch of
           [] \<Rightarrow> Inr None
         | latest_commit # _ \<Rightarrow>
             (case operations_receive api (referencedObject latest_commit) transport of
                Inl e \<Rightarrow> Inl e
              | Inr globs \<Rightarrow> Inr (Some (processBase globs))))))"

text \<open>
  \<open>Send\<close> and \<open>SpeckleSendObjects\<close> differ in the branch name given to \<open>commit.create\<close>:
  the key, or the constant \<open>gbxml\<close>.
\<close>

definition send_and_commit ::
  "('d, 'o) specklepy \<Rightarrow> client \<Rightarrow> stream \<Rightarrow> branch \<Rightarrow> string \<Rightarrow> string \<Rightarrow> string \<Rightarrow> 'd
     \<Rightarrow> py_value \<Rightarrow> remote_exn + commit option" where
  "send_and_commit api client stream branch branch_arg message key data run =
     (if \<not> truthy run then Inr None
      else
        (let base = [(key, data)]
         in case ServerTransport api (stream_id stream) client of Inl e \<Rightarrow> Inl e | Inr transport \<Rightarrow>
           (case operations_send api base [transport] of Inl e \<Rightarrow> Inl e | Inr obj_id \<Rightarrow>
           (case commit_create client (stream_id stream) obj_id branch_arg message of
              Inl e \<Rightarrow> Inl e
            | Inr new_commit_id \<Rightarrow> Inr (commitByID (commits_items branch) new_commit_id)))))"

definition Send ::
  "('d, 'o) specklepy \<Rightarrow> client \<Rightarrow> stream \<Rightarrow> branch \<Rightarrow> string \<Rightarrow> string \<Rightarrow> string \<Rightarrow> 'd
     \<Rightarrow> py_value \<Rightarrow> remote_exn + commit option" where
  "Send api client stream branch description message key data run =
     send_and_commit api client stream branch key message key data run"

definition SpeckleSendObjects ::
  "('d, 'o) specklepy \<Rightarrow> client \<Rightarrow> stream \<Rightarrow> branch \<Rightarrow> string \<Rightarrow> string \<Rightarrow> string \<Rightarrow> 'd
     \<Rightarrow> py_value \<Rightarrow> remote_exn + commit option" where
  "SpeckleSendObjects api client stream branch description message key data run =
     send_and_commit api client stream branch ''gbxml'' message key data run"

text \<open>
  \<open>Speckle.Object\<close>: \<open>mesh_to_native\<close> reads the display value of the received object,
  decodes it with \<open>add_vertices\<close> and \<open>add_faces\<close> and hands the lists to the geometry
  kernel; it makes no remote call and is a parameter here.
\<close>

definition Object ::
  "('d, 'o) specklepy \<Rightarrow> ('o \<Rightarrow> 'r) \<Rightarrow> client \<Rightarrow> stream \<Rightarrow> branch \<Rightarrow> commit \<Rightarrow> remote_exn + 'r" where
  "Object api mesh_to_native client stream branch commit =
     (case ServerTransport api (stream_id stream) client of Inl e \<Rightarrow> Inl e | Inr transport \<Rightarrow>
     (case operations_receive api (referencedObject commit) transport of
        Inl e \<Rightarrow> Inl e
      | Inr speckle_object \<Rightarrow> Inr (mesh_to_native speckle_object)))"

section \<open>Rounding, degrees and atan2\<close>

lemma round_half_even_of_int: "round_half_even (of_int k) = k"
  by (simp add: round_half_even_def)

lemma round_half_even_bounds: "\<lfloor>r\<rfloor> \<le> round_half_even r \<and> round_half_even r \<le> \<lceil>r\<rceil>"
proof -
  have "r - of_int \<lfloor>r\<rfloor> \<noteq> 0 \<Longrightarrow> \<lceil>r\<rceil> = \<lfloor>r\<rfloor> + 1"
    by (metis ceiling_altdef eq_iff_diff_eq_0)
  moreover have "r - of_int \<lfloor>r\<rfloor> = 0 \<Longrightarrow> r - of_int \<lfloor>r\<rfloor> < 1 / 2"
    by simp
  ultimately show ?thesis
    by (auto simp add: round_half_even_def Let_def)
qed

lemma py_round_of_int:
  assumes "0 \<le> m"
  shows "py_round (of_int k) m = of_int k"
proof -
  have "(of_int k :: real) * 10 ^ nat m = of_int (k * 10 ^ nat m)"
    by simp
  then have "round_half_even (of_int k * 10 ^ nat m) = k * 10 ^ nat m"
    using round_half_even_of_int by metis
  with assms show ?thesis
    by (simp add: py_round_def)
qed

lemma py_round_zero: "py_round 0 m = 0"
  by (simp add: py_round_def round_half_even_def)

lemma py_round_range:
  assumes "0 \<le> m" "0 \<le> v" "v \<le> of_int k"
  shows "0 \<le> py_round v m \<and> py_round v m \<le> of_int k"
proof -
  let ?p = "(10::real) ^ nat m"
  have pp: "0 < ?p" by simp
  have lo: "0 \<le> v * ?p" using assms by simp
  have hi: "v * ?p \<le> of_int (k * 10 ^ nat m)" using assms by simp
  have "0 \<le> \<lfloor>v * ?p\<rfloor>" using lo by simp
  then have r0: "0 \<le> round_half_even (v * ?p)"
    using round_half_even_bounds[of "v * ?p"] by linarith
  have "\<lceil>v * ?p\<rceil> \<le> k * 10 ^ nat m"
    using hi by (simp only: ceiling_le_iff)
  then have "round_half_even (v * ?p) \<le> k * 10 ^ nat m"
    using round_half_even_bounds[of "v * ?p"] by linarith
  then have "real_of_int (round_half_even (v * ?p)) \<le> real_of_int (k * 10 ^ nat m)"
    by (simp only: of_int_le_iff)
  then have "real_of_int (round_half_even (v * ?p)) \<le> of_int k * ?p"
    by simp
  then have "real_of_int (round_half_even (v * ?p)) / ?p \<le> of_int k"
    using pp by (simp add: field_simps)
  moreover have "0 \<le> real_of_int (round_half_even (v * ?p)) / ?p"
    using r0 by simp
  ultimately show ?thesis
    using assms(1) by (simp add: py_round_def)
qed

lemma arctan_le_arg:
  assumes "0 \<le> x"
  shows "arctan x \<le> x"
proof -
  have "(\<lambda>t. arctan t - t) x \<le> (\<lambda>t. arctan t - t) 0"
  proof (rule DERIV_nonpos_imp_nonincreasing [OF assms])
    fix t :: real
    have "DERIV (\<lambda>t. arctan t - t) t :> inverse (1 + t\<^sup>2) - 1"
      by (auto intro!: derivative_eq_intros)
    moreover have "inverse (1 + t\<^sup>2) - 1 \<le> 0"
      by (simp add: inverse_le_1_iff)
    ultimately show "\<exists>y. DERIV (\<lambda>t. arctan t - t) t :> y \<and> y \<le> 0"
      by blast
  qed
  then show ?thesis by simp
qed

lemma atan2_range: "- pi < atan2 y x \<and> atan2 y x \<le> pi"
proof -
  have b: "- (pi / 2) < arctan (y / x)" "arctan (y / x) < pi / 2"
    using arctan_bounded by auto
  have p: "0 < pi" by simp
  consider "0 < x" | "x < 0" "0 \<le> y" | "x < 0" "y < 0" | "x = 0"
    by linarith
  then show ?thesis
  proof cases
    case 1
    then have "atan2 y x = arctan (y / x)"
      by (simp add: atan2_def)
    with b p show ?thesis by linarith
  next
    case 2
    then have "y / x \<le> 0"
      by (simp add: divide_nonneg_neg)
    then have "arctan (y / x) \<le> 0" by simp
    moreover from 2 have "atan2 y x = arctan (y / x) + pi"
      by (simp add: atan2_def)
    ultimately show ?thesis using b p by linarith
  next
    case 3
    then have "0 < y / x"
      by (simp add: divide_neg_neg)
    then have "0 < arctan (y / x)" by simp
    moreover from 3 have "atan2 y x = arctan (y / x) - pi"
      by (simp add: atan2_def)
    ultimately show ?thesis using b p by linarith
  next
    case 4
    then have "atan2 y x = pi / 2 \<or> atan2 y x = - (pi / 2) \<or> atan2 y x = 0"
      by (simp add: atan2_def)
    then show ?thesis using p by (elim disjE) linarith+
  qed
qed

lemma degrees_range: "- 180 < degrees (atan2 y x) \<and> degrees (atan2 y x) \<le> 180"
proof -
  have p: "0 < pi" by simp
  from atan2_range[of y x] have "- pi < atan2 y x" "atan2 y x \<le> pi"
    by auto
  then have "- pi * 180 < atan2 y x * 180" "atan2 y x * 180 \<le> pi * 180"
    by auto
  then have "- 180 < atan2 y x * 180 / pi" "atan2 y x * 180 / pi \<le> 180"
    using p by (simp_all add: field_simps)
  then show ?thesis by (simp add: degrees_def)
qed

lemma wrap360_small:
  assumes "0 \<le> v" "v < 360"
  shows "wrap360 v = v"
proof -
  from assms have "\<lfloor>v / 360\<rfloor> = 0"
    by (simp add: floor_eq_iff)
  then show ?thesis by (simp add: wrap360_def)
qed

lemma wrap360_neg:
  assumes "- 360 \<le> v" "v < 0"
  shows "wrap360 v = v + 360"
proof -
  from assms have "\<lfloor>v / 360\<rfloor> = - 1"
    by (simp add: floor_eq_iff)
  then show ?thesis by (simp add: wrap360_def)
qed

lemma azimuth_wrap:
  fixes d :: real
  assumes "- 180 < d" "d \<le> 180"
  shows "90 - (if 90 < d then d - 360 else d) = wrap360 (90 - d)"
    and "0 \<le> wrap360 (90 - d)" and "wrap360 (90 - d) < 360"
proof -
  show e: "90 - (if 90 < d then d - 360 else d) = wrap360 (90 - d)"
  proof (cases "90 < d")
    case True
    then have "wrap360 (90 - d) = 90 - d + 360"
      using assms by (intro wrap360_neg) auto
    with True show ?thesis by simp
  next
    case False
    then have "wrap360 (90 - d) = 90 - d"
      using assms by (intro wrap360_small) auto
    with False show ?thesis by simp
  qed
  from e assms show "0 \<le> wrap360 (90 - d)"
    by (auto split: if_splits)
  from e assms show "wrap360 (90 - d) < 360"
    by (auto split: if_splits)
qed

section \<open>Vector.AzimuthAltitude\<close>

text \<open>
  Claim C3. For every vector \<open>[0, 0, z]\<close> the result is azimuth 0 with altitude 90 when
  \<open>z\<close> is positive, azimuth 0 with altitude \<open>- 90\<close> when \<open>z\<close> is negative, and \<open>None\<close> (no
  azimuth and altitude) when \<open>z\<close> is zero, whatever the mantissa; so it is at \<open>[0, 0, 5]\<close>,
  \<open>[0, 0, - 5]\<close> and \<open>[0, 0, 0]\<close>.
\<close>

theorem AzimuthAltitude_vertical:
  "AzimuthAltitude [0, 0, z] mantissa =
     (if 0 < z then Inr (Some \<lparr>azimuth = 0, altitude = 90\<rparr>)
      else if z < 0 then Inr (Some \<lparr>azimuth = 0, altitude = - 90\<rparr>)
      else Inr None)
   \<and> AzimuthAltitude [0, 0, 5] mantissa = Inr (Some \<lparr>azimuth = 0, altitude = 90\<rparr>)
   \<and> AzimuthAltitude [0, 0, - 5] mantissa = Inr (Some \<lparr>azimuth = 0, altitude = - 90\<rparr>)
   \<and> AzimuthAltitude [0, 0, 0] mantissa = Inr None"
  by simp

lemma AzimuthAltitude_else:
  assumes "x \<noteq> 0 \<or> y \<noteq> 0"
  shows "AzimuthAltitude [x, y, z] mantissa =
           Inr (Some \<lparr>azimuth = py_round (90 - (if 90 < degrees (atan2 y x)
                                                   then degrees (atan2 y x) - 360
                                                   else degrees (atan2 y x))) mantissa,
                      altitude = py_round (degrees (atan2 z (sqrt (x\<^sup>2 + y\<^sup>2)))) mantissa\<rparr>)"
  using assms by (auto simp add: Let_def)

text \<open>
  Claim C4, as the claim states it, fails: the azimuth is rounded after it is wrapped, and
  a value just below 360 rounds up to 360. At the vector \<open>[- 1, 10000000, 0]\<close> with the
  default mantissa 4 the returned azimuth is 360.
\<close>

theorem AzimuthAltitude_reaches_360:
  "AzimuthAltitude [- 1, 10000000, 0] 4 = Inr (Some \<lparr>azimuth = 360, altitude = 0\<rparr>)"
proof -
  let ?t = "arctan 10000000"
  have p2: "2 \<le> pi" by (rule pi_ge_two)
  have inv: "arctan (1 / 10000000) = pi / 2 - ?t"
    using arctan_inverse[of "10000000"] by simp
  have small: "arctan (1 / 10000000) \<le> 1 / 10000000"
    by (rule arctan_le_arg) simp
  have ub: "?t < pi / 2" by (rule arctan_ubound)
  have a: "atan2 10000000 (- 1) = pi - ?t"
    by (simp add: atan2_def arctan_minus)
  have d: "degrees (atan2 10000000 (- 1)) = 180 - ?t * 180 / pi"
    by (simp add: a degrees_def field_simps)
  let ?q = "?t * 180 / pi"
  have q_hi: "?q < 90" using ub by (simp add: field_simps)
  have "pi / 2 - 1 / 10000000 \<le> ?t" using inv small by linarith
  then have "(pi / 2 - 1 / 10000000) * 180 / pi \<le> ?q"
    by (simp add: divide_right_mono)
  moreover have "(pi / 2 - 1 / 10000000) * 180 / pi = 90 - 18 / (1000000 * pi)"
    by (simp add: field_simps)
  moreover have "18 / (1000000 * pi) \<le> 18 / (1000000 * 2)"
    using p2 by (intro divide_left_mono) simp_all
  ultimately have q_lo: "90 - 9 / 1000000 \<le> ?q" by simp
  let ?u = "270 + ?q"
  have fl: "\<lfloor>?u * 10 ^ 4\<rfloor> = 3599999"
    using q_lo q_hi by (simp add: floor_eq_iff)
  have fr: "1 / 2 < ?u * 10 ^ 4 - 3599999"
    using q_lo by simp
  have rhe: "round_half_even (?u * 10 ^ 4) = 3600000"
    unfolding round_half_even_def Let_def fl using fr by simp
  have az: "py_round ?u 4 = 360"
    unfolding py_round_def using rhe by simp
  have alt: "py_round (degrees (atan2 0 (sqrt ((- 1)\<^sup>2 + 10000000\<^sup>2)))) 4 = 0"
    by (simp add: atan2_def degrees_def py_round_def round_half_even_def)
  have gt: "90 < degrees (atan2 10000000 (- 1))"
    using d q_hi by simp
  have "90 - (if 90 < degrees (atan2 10000000 (- 1))
              then degrees (atan2 10000000 (- 1)) - 360
              else degrees (atan2 10000000 (- 1))) = ?u"
    using gt d by simp
  moreover have "AzimuthAltitude [- 1, 10000000, 0] 4 =
           Inr (Some \<lparr>azimuth = py_round (90 - (if 90 < degrees (atan2 10000000 (- 1))
                                                   then degrees (atan2 10000000 (- 1)) - 360
                                                   else degrees (atan2 10000000 (- 1)))) 4,
                      altitude = py_round (degrees (atan2 0 (sqrt ((- 1)\<^sup>2 + 10000000\<^sup>2)))) 4\<rparr>)"
    by (rule AzimuthAltitude_else) simp
  ultimately show ?thesis by (simp only: az alt)
qed

text \<open>
  Claim C4, amended. For every vector whose x and y are not both zero the result is the
  dictionary whose azimuth is \<open>90 - atan2(y, x)\<close> in degrees wrapped into the range from 0
  up to and excluding 360 and then rounded to the mantissa, and whose altitude is
  \<open>atan2(z, sqrt(x^2 + y^2))\<close> in degrees rounded to the mantissa. The wrapped value is
  below 360; the returned, rounded azimuth lies between 0 and 360 inclusive for a
  mantissa that is not negative.
\<close>

theorem AzimuthAltitude_general:
  assumes "x \<noteq> 0 \<or> y \<noteq> 0"
  shows "AzimuthAltitude [x, y, z] mantissa =
           Inr (Some \<lparr>azimuth = py_round (wrap360 (90 - degrees (atan2 y x))) mantissa,
                      altitude = py_round (degrees (atan2 z (sqrt (x\<^sup>2 + y\<^sup>2)))) mantissa\<rparr>)
         \<and> 0 \<le> wrap360 (90 - degrees (atan2 y x))
         \<and> wrap360 (90 - degrees (atan2 y x)) < 360
         \<and> (0 \<le> mantissa \<longrightarrow>
              0 \<le> py_round (wrap360 (90 - degrees (atan2 y x))) mantissa
              \<and> py_round (wrap360 (90 - degrees (atan2 y x))) mantissa \<le> 360)"
proof -
  let ?d = "degrees (atan2 y x)"
  have r: "- 180 < ?d" "?d \<le> 180"
    using degrees_range[of y x] by auto
  note w = azimuth_wrap[OF r]
  have eq: "AzimuthAltitude [x, y, z] mantissa =
           Inr (Some \<lparr>azimuth = py_round (wrap360 (90 - ?d)) mantissa,
                      altitude = py_round (degrees (atan2 z (sqrt (x\<^sup>2 + y\<^sup>2)))) mantissa\<rparr>)"
    unfolding AzimuthAltitude_else[OF assms] w(1) ..
  have "0 \<le> mantissa \<Longrightarrow> 0 \<le> py_round (wrap360 (90 - ?d)) mantissa
              \<and> py_round (wrap360 (90 - ?d)) mantissa \<le> 360"
    using py_round_range[of mantissa "wrap360 (90 - ?d)" 360] w(2,3) by simp
  with eq w(2,3) show ?thesis by blast
qed

theorem AzimuthAltitude_general_witness:
  "(1::real) \<noteq> 0 \<and> (0::int) \<le> 4
   \<and> AzimuthAltitude [0, 1, 0] 4 = Inr (Some \<lparr>azimuth = 0, altitude = 0\<rparr>)"
proof -
  have h: "(0::real) \<noteq> 0 \<or> (1::real) \<noteq> 0" by simp
  have a: "wrap360 (90 - degrees (atan2 1 0)) = 0"
    by (simp add: atan2_def degrees_def wrap360_def)
  have b: "degrees (atan2 0 (sqrt (0\<^sup>2 + 1\<^sup>2))) = 0"
    by (simp add: atan2_def degrees_def)
  from AzimuthAltitude_general[OF h, of 0 4]
  have "AzimuthAltitude [0, 1, 0] 4 =
          Inr (Some \<lparr>azimuth = py_round (wrap360 (90 - degrees (atan2 1 0))) 4,
                     altitude = py_round (degrees (atan2 0 (sqrt (0\<^sup>2 + 1\<^sup>2)))) 4\<rparr>)"
    by blast
  then show ?thesis
    unfolding a b py_round_zero by simp
qed

section \<open>Vector.Angle and Vector.Reverse\<close>

lemma list3: "length v = 3 \<Longrightarrow> \<exists>a b c. v = [a, b, c]"
  by (auto simp add: length_Suc_conv numeral_3_eq_3)

lemma la_norm3: "la_norm [a, b, c] = sqrt (a * a + b * b + c * c)"
  by (simp add: la_norm_def power2_eq_square)

lemma Angle_units:
  assumes "la_norm [x, y, z] = 1" "la_norm [p, q, r] = 1"
  shows "Angle [x, y, z] [p, q, r] m =
     Inr (Num (py_round (degrees (atan2 (la_norm [y * r - z * q, z * p - x * r, x * q - y * p])
                                        (x * p + (y * q + z * r)))) m))"
  using assms by (simp add: Angle_def np_dot_def Let_def)

lemma Angle_self3:
  assumes "la_norm [x, y, z] = 1"
  shows "Angle [x, y, z] [x, y, z] m = Inr (Num 0)"
proof -
  have d: "x * x + (y * y + z * z) = 1"
    using assms by (simp add: la_norm3)
  have c: "la_norm [y * z - z * y, z * x - x * z, x * y - y * x] = 0"
    by (simp add: la_norm_def)
  have "atan2 0 1 = 0" by (simp add: atan2_def)
  then have "py_round (degrees (atan2 0 1)) m = 0"
    by (simp add: degrees_def py_round_zero)
  then show ?thesis
    unfolding Angle_units[OF assms assms] c d by simp
qed

lemma Angle_reverse3:
  assumes "la_norm [x, y, z] = 1" "0 \<le> m"
  shows "Angle [x, y, z] [x * (- 1), y * (- 1), z * (- 1)] m = Inr (Num 180)"
proof -
  have d: "x * x + y * y + z * z = 1"
    using assms(1) by (simp add: la_norm3)
  have n: "la_norm [x * (- 1), y * (- 1), z * (- 1)] = 1"
    using assms(1) by (simp add: la_norm3)
  have c: "la_norm [y * (z * (- 1)) - z * (y * (- 1)), z * (x * (- 1)) - x * (z * (- 1)),
                    x * (y * (- 1)) - y * (x * (- 1))] = 0"
    by (simp add: la_norm_def)
  have e: "x * (x * (- 1)) + (y * (y * (- 1)) + z * (z * (- 1))) = - 1"
    using d by (simp add: algebra_simps)
  have "atan2 0 (- 1) = pi" by (simp add: atan2_def)
  then have "degrees (atan2 0 (- 1)) = 180" by (simp add: degrees_def)
  then have "py_round (degrees (atan2 0 (- 1))) m = 180"
    using py_round_of_int[OF assms(2), of 180] by simp
  then show ?thesis
    unfolding Angle_units[OF assms(1) n] c e by simp
qed

text \<open>
  Claim C5. For every unit vector \<open>a\<close> of three components, \<open>Angle(a, a)\<close> is 0 and
  \<open>Angle(a, Reverse(a))\<close> is 180, where \<open>Reverse\<close> negates every component. The mantissa
  is any that is not negative; the call of the claim takes the default, 4.
\<close>

theorem Angle_unit_self_reverse:
  assumes "length a = 3" and "la_norm a = 1" and "0 \<le> mantissa"
  shows "Angle a a mantissa = Inr (Num 0)
         \<and> Reverse (PyList a) = Some (map (\<lambda>x. x * (- 1)) a)
         \<and> Angle a (map (\<lambda>x. x * (- 1)) a) mantissa = Inr (Num 180)"
proof -
  from list3[OF assms(1)] obtain x y z where a: "a = [x, y, z]" by blast
  have u: "la_norm [x, y, z] = 1" using assms(2) a by simp
  show ?thesis
    unfolding a using Angle_self3[OF u, of mantissa] Angle_reverse3[OF u assms(3)]
    by (simp add: Reverse_def)
qed

theorem Angle_unit_self_reverse_witness:
  "length [0, 1, 0 :: real] = 3 \<and> la_norm [0, 1, 0] = 1
   \<and> Angle [0, 1, 0] [0, 1, 0] 4 = Inr (Num 0)
   \<and> Reverse (PyList [0, 1, 0]) = Some [0, - 1, 0]
   \<and> Angle [0, 1, 0] [0, - 1, 0] 4 = Inr (Num 180)"
proof -
  have l: "length [0, 1, 0 :: real] = 3" by simp
  have n: "la_norm [0, 1, 0] = 1" by (simp add: la_norm_def)
  have m: "(0::int) \<le> 4" by simp
  from Angle_unit_self_reverse[OF l n m] l n show ?thesis by simp
qed

section \<open>Vector.Multiply\<close>

lemma scale_loop_guarded:
  "\<not> fis_zero ar oldMag \<Longrightarrow>
   scale_loop ar v magnitude oldMag acc
     = Inr (acc @ map (\<lambda>c. fdiv ar (fmul ar c magnitude) oldMag) v)"
  by (induction v arbitrary: acc) (simp_all add: py_truediv_def)

lemma scale_loop_zero:
  "fis_zero ar oldMag \<Longrightarrow> v \<noteq> [] \<Longrightarrow>
   scale_loop ar v magnitude oldMag acc = Inl ZeroDivisionError"
  by (cases v) (simp_all add: py_truediv_def)

lemma scale_loop_raises:
  "scale_loop ar v magnitude oldMag acc = Inl e \<Longrightarrow> fis_zero ar oldMag"
  by (rule ccontr) (simp add: scale_loop_guarded)

lemma sum_squares_real:
  "sum_squares real_arith v acc = Inr (acc + sum_list (map (\<lambda>c. c ^ 2) v))"
  by (induction v arbitrary: acc) (simp_all add: real_arith_def)

text \<open>
  Claim C9, as the claim states it, fails: the guard is \<open>oldMag < tolerance\<close>, so with the
  tolerance 0 the zero vector, whose norm 0 is at least the tolerance, reaches the
  division and Python raises ZeroDivisionError.
\<close>

theorem Multiply_zero_tolerance:
  "Multiply real_arith [0, 0, 0] 1 0 = Inl ZeroDivisionError
   \<and> Multiply range_arith [0, 0, 0] 1 0 = Inl ZeroDivisionError"
  by (simp add: Multiply_def real_arith_def range_arith_def py_truediv_def)

text \<open>
  Claim C9, amended, in any float arithmetic. The norm here is the computed one, the
  root of the sum of the squares. When it is below the tolerance the result is
  \<open>[0, 0, 0]\<close> and nothing is divided. When it is not below the tolerance and is not
  zero (or the vector is empty), the result is each component times the magnitude
  divided by the norm. When it is not below the tolerance and is zero, a vector that is
  not empty raises ZeroDivisionError. An exception of a square (OverflowError) is raised
  by \<open>Multiply\<close>. When the tolerance is positive, so that every zero is below it, the
  division is guarded: whatever \<open>Multiply\<close> raises is what a square raised, never the
  ZeroDivisionError of the division.
\<close>

theorem Multiply_guarded:
  "(\<forall>sumsq. sum_squares ar vector (fzero ar) = Inr sumsq
        \<and> fless ar (froot ar sumsq) tolerance \<longrightarrow>
        Multiply ar vector magnitude tolerance = Inr [fzero ar, fzero ar, fzero ar])
   \<and> (\<forall>sumsq. sum_squares ar vector (fzero ar) = Inr sumsq
        \<and> \<not> fless ar (froot ar sumsq) tolerance
        \<and> (vector = [] \<or> \<not> fis_zero ar (froot ar sumsq)) \<longrightarrow>
        Multiply ar vector magnitude tolerance
          = Inr (map (\<lambda>c. fdiv ar (fmul ar c magnitude) (froot ar sumsq)) vector))
   \<and> (\<forall>sumsq. sum_squares ar vector (fzero ar) = Inr sumsq
        \<and> \<not> fless ar (froot ar sumsq) tolerance \<and> fis_zero ar (froot ar sumsq)
        \<and> vector \<noteq> [] \<longrightarrow>
        Multiply ar vector magnitude tolerance = Inl ZeroDivisionError)
   \<and> (\<forall>e. sum_squares ar vector (fzero ar) = Inl e \<longrightarrow>
        Multiply ar vector magnitude tolerance = Inl e)
   \<and> ((\<forall>n. fis_zero ar n \<longrightarrow> fless ar n tolerance) \<longrightarrow>
        (\<forall>e. Multiply ar vector magnitude tolerance = Inl e \<longrightarrow>
             sum_squares ar vector (fzero ar) = Inl e))"
proof (intro conjI allI impI)
  fix sumsq
  assume "sum_squares ar vector (fzero ar) = Inr sumsq \<and> fless ar (froot ar sumsq) tolerance"
  then show "Multiply ar vector magnitude tolerance = Inr [fzero ar, fzero ar, fzero ar]"
    by (simp add: Multiply_def)
next
  fix sumsq
  assume "sum_squares ar vector (fzero ar) = Inr sumsq
        \<and> \<not> fless ar (froot ar sumsq) tolerance
        \<and> (vector = [] \<or> \<not> fis_zero ar (froot ar sumsq))"
  then show "Multiply ar vector magnitude tolerance
          = Inr (map (\<lambda>c. fdiv ar (fmul ar c magnitude) (froot ar sumsq)) vector)"
    by (auto simp add: Multiply_def scale_loop_guarded)
next
  fix sumsq
  assume "sum_squares ar vector (fzero ar) = Inr sumsq
        \<and> \<not> fless ar (froot ar sumsq) tolerance \<and> fis_zero ar (froot ar sumsq)
        \<and> vector \<noteq> []"
  then show "Multiply ar vector magnitude tolerance = Inl ZeroDivisionError"
    by (simp add: Multiply_def scale_loop_zero)
next
  fix e
  assume "sum_squares ar vector (fzero ar) = Inl e"
  then show "Multiply ar vector magnitude tolerance = Inl e"
    by (simp add: Multiply_def)
next
  fix e
  assume pos: "\<forall>n. fis_zero ar n \<longrightarrow> fless ar n tolerance"
    and m: "Multiply ar vector magnitude tolerance = Inl e"
  show "sum_squares ar vector (fzero ar) = Inl e"
  proof (cases "sum_squares ar vector (fzero ar)")
    case (Inl e')
    with m show ?thesis by (simp add: Multiply_def)
  next
    case (Inr sumsq)
    show ?thesis
    proof (cases "fless ar (froot ar sumsq) tolerance")
      case True
      with Inr m show ?thesis by (simp add: Multiply_def)
    next
      case False
      with Inr m have "scale_loop ar vector magnitude (froot ar sumsq) [] = Inl e"
        by (simp add: Multiply_def)
      then have "fis_zero ar (froot ar sumsq)" by (rule scale_loop_raises)
      with pos False show ?thesis by blast
    qed
  qed
qed

theorem Multiply_guarded_witness:
  "Multiply real_arith [3, 4, 0] 10 (1 / 10000) = Inr [6, 8, 0]
   \<and> Multiply real_arith [0, 0, 0] 10 (1 / 10000) = Inr [0, 0, 0]
   \<and> Multiply range_arith [10 ^ 200, 0, 0] 1 (1 / 10000) = Inl OverflowError
   \<and> Multiply range_arith [1 / 10 ^ 200, 0, 0] 1 0 = Inl ZeroDivisionError"
proof -
  have r5: "sqrt 25 = 5"
    by (rule real_sqrt_unique) simp_all
  have s1: "sum_squares real_arith [3, 4, 0] (fzero real_arith) = Inr 25"
    by (simp add: real_arith_def)
  have h1: "sum_squares real_arith [3, 4, 0] (fzero real_arith) = Inr 25
        \<and> \<not> fless real_arith (froot real_arith 25) (1 / 10000)
        \<and> ([3, 4, 0] = ([] :: real list) \<or> \<not> fis_zero real_arith (froot real_arith 25))"
    using s1 r5 by (simp add: real_arith_def)
  note G1 = Multiply_guarded[where ar = real_arith and vector = "[3, 4, 0]"
      and tolerance = "1 / 10000" and magnitude = 10]
  have "Multiply real_arith [3, 4, 0] 10 (1 / 10000)
          = Inr (map (\<lambda>c. fdiv real_arith (fmul real_arith c 10) (froot real_arith 25)) [3, 4, 0])"
    by (rule G1[THEN conjunct2, THEN conjunct1, THEN spec, THEN mp, OF h1])
  then have a: "Multiply real_arith [3, 4, 0] 10 (1 / 10000) = Inr [6, 8, 0]"
    using r5 by (simp add: real_arith_def)
  have h2: "sum_squares real_arith [0, 0, 0] (fzero real_arith) = Inr 0
        \<and> fless real_arith (froot real_arith 0) (1 / 10000)"
    by (simp add: real_arith_def)
  note G2 = Multiply_guarded[where ar = real_arith and vector = "[0, 0, 0]"
      and tolerance = "1 / 10000" and magnitude = 10]
  have "Multiply real_arith [0, 0, 0] 10 (1 / 10000)
          = Inr [fzero real_arith, fzero real_arith, fzero real_arith]"
    by (rule G2[THEN conjunct1, THEN spec, THEN mp, OF h2])
  then have b: "Multiply real_arith [0, 0, 0] 10 (1 / 10000) = Inr [0, 0, 0]"
    by (simp add: real_arith_def)
  have big: "(2::real) ^ 1024 \<le> (10 ^ 200)\<^sup>2"
    by simp
  have h3: "sum_squares range_arith [10 ^ 200, 0, 0] (fzero range_arith) = Inl OverflowError"
    using big by (simp add: range_arith_def)
  note G3 = Multiply_guarded[where ar = range_arith and vector = "[10 ^ 200, 0, 0]"
      and tolerance = "1 / 10000" and magnitude = 1]
  have c: "Multiply range_arith [10 ^ 200, 0, 0] 1 (1 / 10000) = Inl OverflowError"
    by (rule G3[THEN conjunct2, THEN conjunct2, THEN conjunct2, THEN conjunct1,
          THEN spec, THEN mp, OF h3])
  have small: "(1 / 10 ^ 200)\<^sup>2 * 2 ^ 1075 \<le> (1::real)"
    by (simp add: field_simps)
  have notbig: "\<not> (2::real) ^ 1024 \<le> (1 / 10 ^ 200)\<^sup>2"
    by (simp add: field_simps)
  have s4: "sum_squares range_arith [1 / 10 ^ 200, 0, 0] (fzero range_arith) = Inr 0"
    using small notbig by (simp add: range_arith_def)
  have h4: "sum_squares range_arith [1 / 10 ^ 200, 0, 0] (fzero range_arith) = Inr 0
        \<and> \<not> fless range_arith (froot range_arith 0) 0
        \<and> fis_zero range_arith (froot range_arith 0)
        \<and> [1 / 10 ^ 200, 0, 0] \<noteq> ([] :: real list)"
    using s4 by (simp add: range_arith_def)
  note G4 = Multiply_guarded[where ar = range_arith and vector = "[1 / 10 ^ 200, 0, 0]"
      and tolerance = 0 and magnitude = 1]
  have d: "Multiply range_arith [1 / 10 ^ 200, 0, 0] 1 0 = Inl ZeroDivisionError"
    by (rule G4[THEN conjunct2, THEN conjunct2, THEN conjunct1, THEN spec, THEN mp, OF h4])
  from a b c d show ?thesis by blast
qed

text \<open>
  In exact arithmetic the sum of the squares is the square of the Euclidean norm, and
  the values are the ones the claim names.
\<close>

lemma Multiply_exact_values:
  "(la_norm vector < tolerance \<longrightarrow>
      Multiply real_arith vector magnitude tolerance = Inr [0, 0, 0])
   \<and> (tolerance \<le> la_norm vector \<and> la_norm vector \<noteq> 0 \<longrightarrow>
        Multiply real_arith vector magnitude tolerance
          = Inr (map (\<lambda>c. c * magnitude / la_norm vector) vector))"
proof -
  have s: "sum_squares real_arith vector (fzero real_arith)
             = Inr (sum_list (map (\<lambda>c. c ^ 2) vector))"
    using sum_squares_real[of vector 0] by (simp add: real_arith_def)
  have n: "froot real_arith (sum_list (map (\<lambda>c. c ^ 2) vector)) = la_norm vector"
    by (simp add: real_arith_def la_norm_def)
  have g: "\<not> fis_zero real_arith (la_norm vector) \<Longrightarrow>
        scale_loop real_arith vector magnitude (la_norm vector) []
          = Inr (map (\<lambda>c. c * magnitude / la_norm vector) vector)"
    using scale_loop_guarded[of real_arith "la_norm vector" vector magnitude "[]"]
    by (simp add: real_arith_def)
  show ?thesis
    using g by (auto simp add: Multiply_def s n Let_def) (simp_all add: real_arith_def)
qed

section \<open>Vector.Coordinates\<close>

lemma axis_loop_components:
  "axis_loop s x y z out = out @ axis_components s x y z"
  by (induction s arbitrary: out) (simp_all add: axis_components_def)

lemma Coordinates_3:
  "Coordinates (PyList [a, b, c]) outputType mantissa =
     (if lower outputType = ''matrix''
      then Inr (CoordMatrix [[1, 0, 0, py_round a mantissa], [0, 1, 0, py_round b mantissa],
                             [0, 0, 1, py_round c mantissa], [0, 0, 0, 1]])
      else Inr (CoordList (axis_loop (lower outputType)
                 (py_round a mantissa) (py_round b mantissa) (py_round c mantissa) [])))"
  by (simp add: Coordinates_def list_item_def Let_def)

lemma no_axis_not_matrix:
  assumes "\<forall>ch \<in> set s. ch \<notin> {CHR ''x'', CHR ''y'', CHR ''z''}"
  shows "s \<noteq> ''matrix''"
proof
  assume "s = ''matrix''"
  then have "CHR ''x'' \<in> set s" by simp
  with assms show False by blast
qed

text \<open>
  Claim C10. A vector that is not a list gives \<open>None\<close>. For a vector of three components
  and an output type whose lowered form is not \<open>matrix\<close>, the result is the list of the
  rounded components named by the characters x, y and z of the lowered string, in the
  string's order and with repetition, every other character being skipped; a string with
  none of the three letters gives the empty list.
\<close>

theorem Coordinates_axes:
  "Coordinates PyNonList outputType mantissa = Inr CoordNone
   \<and> (lower outputType \<noteq> ''matrix'' \<longrightarrow>
        Coordinates (PyList [a, b, c]) outputType mantissa =
          Inr (CoordList (axis_components (lower outputType)
                 (py_round a mantissa) (py_round b mantissa) (py_round c mantissa))))
   \<and> ((\<forall>ch \<in> set (lower outputType). ch \<notin> {CHR ''x'', CHR ''y'', CHR ''z''}) \<longrightarrow>
        Coordinates (PyList [a, b, c]) outputType mantissa = Inr (CoordList []))"
proof (intro conjI impI)
  show "Coordinates PyNonList outputType mantissa = Inr CoordNone"
    by (simp add: Coordinates_def)
next
  assume "lower outputType \<noteq> ''matrix''"
  then show "Coordinates (PyList [a, b, c]) outputType mantissa =
          Inr (CoordList (axis_components (lower outputType)
                 (py_round a mantissa) (py_round b mantissa) (py_round c mantissa)))"
    unfolding Coordinates_3 axis_loop_components by simp
next
  assume n: "\<forall>ch \<in> set (lower outputType). ch \<notin> {CHR ''x'', CHR ''y'', CHR ''z''}"
  have m: "lower outputType \<noteq> ''matrix''"
    using n by (rule no_axis_not_matrix)
  from n have "filter (\<lambda>c. c \<in> {CHR ''x'', CHR ''y'', CHR ''z''}) (lower outputType) = []"
    by (simp only: filter_empty_conv)
  then have "axis_components (lower outputType)
                 (py_round a mantissa) (py_round b mantissa) (py_round c mantissa) = []"
    by (simp only: axis_components_def list.map)
  with m show "Coordinates (PyList [a, b, c]) outputType mantissa = Inr (CoordList [])"
    unfolding Coordinates_3 axis_loop_components by simp
qed

theorem Coordinates_axes_witness:
  "lower ''ZyXaz'' = ''zyxaz'' \<and> ''zyxaz'' \<noteq> ''matrix''
   \<and> Coordinates (PyList [1, 2, 3]) ''ZyXaz'' 4 = Inr (CoordList [3, 2, 1, 3])
   \<and> lower ''AB'' = ''ab''
   \<and> Coordinates (PyList [1, 2, 3]) ''AB'' 4 = Inr (CoordList [])"
proof -
  have l: "lower ''ZyXaz'' = ''zyxaz''" by code_simp
  have l2: "lower ''AB'' = ''ab''" by code_simp
  have n: "''zyxaz'' \<noteq> ''matrix''" by simp
  have r: "py_round 1 4 = 1" "py_round 2 4 = 2" "py_round 3 4 = 3"
    using py_round_of_int[of 4 1] py_round_of_int[of 4 2] py_round_of_int[of 4 3] by simp_all
  have c: "axis_components ''zyxaz'' 1 2 3 = [3, 2, 1, 3]"
    by (simp add: axis_components_def)
  from Coordinates_axes[of "''ZyXaz''" 4 1 2 3]
  have "lower ''ZyXaz'' \<noteq> ''matrix'' \<longrightarrow>
        Coordinates (PyList [1, 2, 3]) ''ZyXaz'' 4 =
          Inr (CoordList (axis_components (lower ''ZyXaz'')
                 (py_round 1 4) (py_round 2 4) (py_round 3 4)))"
    by blast
  then have a: "Coordinates (PyList [1, 2, 3]) ''ZyXaz'' 4 = Inr (CoordList [3, 2, 1, 3])"
    unfolding l r c using n by blast
  have e: "\<forall>ch \<in> set ''ab''. ch \<notin> {CHR ''x'', CHR ''y'', CHR ''z''}" by simp
  from Coordinates_axes[of "''AB''" 4 1 2 3]
  have "(\<forall>ch \<in> set (lower ''AB''). ch \<notin> {CHR ''x'', CHR ''y'', CHR ''z''}) \<longrightarrow>
        Coordinates (PyList [1, 2, 3]) ''AB'' 4 = Inr (CoordList [])"
    by blast
  then have b: "Coordinates (PyList [1, 2, 3]) ''AB'' 4 = Inr (CoordList [])"
    unfolding l2 using e by blast
  from l n a l2 b show ?thesis by blast
qed

section \<open>Speckle.py: encoding and decoding the mesh record\<close>






lemma py_getitem_mid: "py_getitem (pre @ n # rest) (int (length pre)) = Inr n"
  by (simp add: py_getitem_def)

lemma py_slice_mid:
  "py_slice (pre @ n # run @ rest) (int (length pre) + 1)
     (int (length pre) + 1 + int (length run)) = run"
proof -
  have a: "slice_bound (length (pre @ n # run @ rest)) (int (length pre) + 1) = Suc (length pre)"
    by (simp add: slice_bound_def)
  have b: "slice_bound (length (pre @ n # run @ rest)) (int (length pre) + 1 + int (length run))
             = Suc (length pre) + length run"
    by (simp add: slice_bound_def nat_add_distrib)
  have "drop (Suc (length pre)) (pre @ n # run @ rest) = run @ rest"
    by simp
  then show ?thesis
    unfolding py_slice_def Let_def a b by simp
qed

lemma add_faces_loop_decode:
  assumes "\<forall>(n, run) \<in> set es. int (length run) = (if n < 3 then n + 3 else n)"
  shows "add_faces_loop (pre @ encode_faces es) (int (length pre)) acc
           = Some (Inr (acc @ map snd es))"
  using assms
proof (induction es arbitrary: pre acc)
  case Nil
  show ?case
    by (subst add_faces_loop.simps) (simp add: encode_faces_def)
next
  case (Cons e es)
  obtain n run where e: "e = (n, run)" by (cases e)
  let ?sf = "pre @ n # run @ encode_faces es"
  have sf: "pre @ encode_faces (e # es) = ?sf"
    by (simp add: e encode_faces_def)
  have len: "int (length run) = (if n < 3 then n + 3 else n)"
    using Cons.prems e by simp
  have rest: "\<forall>(n, run) \<in> set es. int (length run) = (if n < 3 then n + 3 else n)"
    using Cons.prems by simp
  have ih: "add_faces_loop ((pre @ n # run) @ encode_faces es) (int (length (pre @ n # run)))
              (acc @ [run]) = Some (Inr ((acc @ [run]) @ map snd es))"
    by (rule Cons.IH[OF rest])
  have pos: "int (length pre) < int (length ?sf)" by simp
  have "add_faces_loop ?sf (int (length pre)) acc =
          add_faces_loop ?sf (int (length pre) + 1 + int (length run))
             (acc @ [py_slice ?sf (int (length pre) + 1) (int (length pre) + 1 + int (length run))])"
    by (subst add_faces_loop.simps)
       (simp only: pos py_getitem_mid len[symmetric] Let_def if_True sum.case)
  also have "\<dots> = add_faces_loop ?sf (int (length pre) + 1 + int (length run)) (acc @ [run])"
    by (simp only: py_slice_mid)
  also have "\<dots> = Some (Inr ((acc @ [run]) @ map snd es))"
    using ih by (simp add: add.commute add.left_commute)
  finally show ?case
    unfolding sf by (simp add: e)
qed

lemma add_faces_decode:
  assumes "es \<noteq> []"
    and "\<forall>(n, run) \<in> set es. int (length run) = (if n < 3 then n + 3 else n)"
  shows "add_faces \<lparr>vertices = vs, faces = encode_faces es, renderMaterial_Opacity = op\<rparr>
           = Some (Inr (Some (map snd es)))"
proof -
  obtain n run es' where es: "es = (n, run) # es'"
    using assms(1) by (cases es) auto
  then have ne: "encode_faces es \<noteq> []"
    by (simp add: encode_faces_def)
  have "add_faces_loop ([] @ encode_faces es) (int (length ([] :: int list))) []
          = Some (Inr ([] @ map snd es))"
    by (rule add_faces_loop_decode[OF assms(2)])
  then have "add_faces_loop (encode_faces es) 0 [] = Some (Inr (map snd es))"
    by simp
  with ne show ?thesis
    by (simp add: add_faces_def)
qed



text \<open>
  The decoder on a record with an empty face buffer: the \<open>return faces\<close> of \<open>add_faces\<close>
  stands inside the test for a non-empty buffer, so the result is Python's \<open>None\<close>, where
  \<open>add_vertices\<close> returns its (empty) list after the test.
\<close>

lemma add_faces_empty_buffer:
  "add_faces \<lparr>vertices = sverts, faces = [], renderMaterial_Opacity = op\<rparr> = Some (Inr None)
   \<and> add_vertices \<lparr>vertices = [], faces = sfaces, renderMaterial_Opacity = op\<rparr> scale = Inr []"
  by (simp add: add_vertices_def add_faces_def)

text \<open>
  Claim C2. In a face buffer where each face is a count followed by its run of indices,
  a count of 0 is followed by a run of 3 indices, a count of 1 by a run of 4, and a
  count of 3 or more by a run of that many: the decoder adds 3 to a count of 0 or 1
  before it slices, uses a count of at least 3 unchanged, and returns exactly the runs.
\<close>

theorem add_faces_count_adjustment:
  assumes "es \<noteq> []"
    and "\<forall>(n, run) \<in> set es.
           (n = 0 \<and> length run = 3) \<or> (n = 1 \<and> length run = 4) \<or> (3 \<le> n \<and> int (length run) = n)"
  shows "add_faces \<lparr>vertices = vs, faces = encode_faces es, renderMaterial_Opacity = op\<rparr>
           = Some (Inr (Some (map snd es)))"
proof -
  have "\<forall>(n, run) \<in> set es. int (length run) = (if n < 3 then n + 3 else n)"
    using assms(2) by fastforce
  with assms(1) show ?thesis by (rule add_faces_decode)
qed

theorem add_faces_count_adjustment_witness:
  "encode_faces [(0, [7, 8, 9]), (1, [4, 5, 6, 7]), (3, [1, 2, 3])]
     = [0, 7, 8, 9, 1, 4, 5, 6, 7, 3, 1, 2, 3]
   \<and> add_faces \<lparr>vertices = [], faces = [0, 7, 8, 9, 1, 4, 5, 6, 7, 3, 1, 2, 3],
                 renderMaterial_Opacity = 1 / 2\<rparr>
     = Some (Inr (Some [[7, 8, 9], [4, 5, 6, 7], [1, 2, 3]]))"
proof -
  let ?es = "[(0, [7, 8, 9]), (1, [4, 5, 6, 7]), (3, [1, 2, 3])] :: (int \<times> int list) list"
  have e: "encode_faces ?es = [0, 7, 8, 9, 1, 4, 5, 6, 7, 3, 1, 2, 3]"
    by (simp add: encode_faces_def)
  have n: "?es \<noteq> []" by simp
  have h: "\<forall>(n, run) \<in> set ?es.
           (n = 0 \<and> length run = 3) \<or> (n = 1 \<and> length run = 4) \<or> (3 \<le> n \<and> int (length run) = n)"
    by simp
  from add_faces_count_adjustment[OF n h, of "[]" "1 / 2"] e show ?thesis by simp
qed

section \<open>Plotly.py: the retry loop\<close>

lemma lookup_loop_done: "lookup_loop index (Some k) t = Some (Some k)"
  by (subst lookup_loop.simps) simp

lemma lookup_loop_cap: "3 \<le> t \<Longrightarrow> lookup_loop index i t = Some i"
  by (subst lookup_loop.simps) simp

lemma lookup_loop_step:
  "t < 3 \<Longrightarrow> lookup_loop index None t = lookup_loop index (index t) (t * 10)"
  by (subst lookup_loop.simps) simp

text \<open>
  The lookups run at the tolerances \<open>t\<close>, \<open>10 t\<close>, \<open>100 t\<close> and so on; the loop stops at the
  first of them that is 3 or more, or at which the lookup succeeds.
\<close>

lemma lookup_loop_first:
  assumes "\<forall>k<j. t * 10 ^ k < 3 \<and> index (t * 10 ^ k) = None"
    and "3 \<le> t * 10 ^ j \<or> index (t * 10 ^ j) \<noteq> None"
  shows "lookup_loop index None t = Some (if t * 10 ^ j < 3 then index (t * 10 ^ j) else None)"
  using assms
proof (induction j arbitrary: t)
  case 0
  show ?case
  proof (cases "t < 3")
    case True
    with 0 obtain k where "index t = Some k" by auto
    with True show ?thesis
      by (simp add: lookup_loop_step lookup_loop_done)
  next
    case False
    then show ?thesis by (simp add: lookup_loop_cap)
  qed
next
  case (Suc j)
  from Suc.prems(1) have t0: "t < 3" "index t = None" by force+
  have a: "\<forall>k<j. t * 10 * 10 ^ k < 3 \<and> index (t * 10 * 10 ^ k) = None"
  proof (intro allI impI)
    fix k assume "k < j"
    then have "Suc k < Suc j" by simp
    with Suc.prems(1) have "t * 10 ^ Suc k < 3 \<and> index (t * 10 ^ Suc k) = None"
      by blast
    then show "t * 10 * 10 ^ k < 3 \<and> index (t * 10 * 10 ^ k) = None"
      by (simp add: mult.assoc)
  qed
  have b: "3 \<le> t * 10 * 10 ^ j \<or> index (t * 10 * 10 ^ j) \<noteq> None"
    using Suc.prems(2) by (simp add: mult.assoc)
  have "lookup_loop index None (t * 10) =
          Some (if t * 10 * 10 ^ j < 3 then index (t * 10 * 10 ^ j) else None)"
    by (rule Suc.IH[OF a b])
  with t0 show ?case
    by (simp add: lookup_loop_step mult.assoc)
qed

lemma lookup_loop_terminates:
  assumes "0 < t"
  shows "\<exists>r. lookup_loop index None t = Some r"
proof -
  have "\<exists>n. 3 / t < 10 ^ n"
    by (rule real_arch_pow) simp
  then obtain n where "3 / t < 10 ^ n" ..
  with assms have n: "3 \<le> t * 10 ^ n"
    by (simp add: field_simps)
  define P where "P k \<longleftrightarrow> 3 \<le> t * 10 ^ k \<or> index (t * 10 ^ k) \<noteq> None" for k
  have "P n" using n by (simp add: P_def)
  define j where "j = (LEAST k. P k)"
  have pj: "P j"
    unfolding j_def using \<open>P n\<close> by (rule LeastI)
  have lt: "\<And>k. k < j \<Longrightarrow> \<not> P k"
    unfolding j_def by (rule not_less_Least)
  have "\<forall>k<j. t * 10 ^ k < 3 \<and> index (t * 10 ^ k) = None"
    using lt by (auto simp add: P_def not_le)
  moreover have "3 \<le> t * 10 ^ j \<or> index (t * 10 ^ j) \<noteq> None"
    using pj by (simp add: P_def)
  ultimately show ?thesis
    using lookup_loop_first by blast
qed

lemma lookup_loop_never_returns:
  assumes "lookup_loop index i t = Some r"
  shows "\<not> (i = None \<and> t \<le> 0 \<and> (\<forall>s. index s = None))"
  using assms
proof (induction rule: lookup_loop.raw_induct[rotated 1, consumes 1])
  case (1 lookup_loop' index i t r)
  show ?case
  proof
    assume h: "i = None \<and> t \<le> 0 \<and> (\<forall>s. index s = None)"
    then have "t < 3" by simp
    with h 1(2) have "lookup_loop' index None (t * 10) = Some r" by simp
    moreover have "t * 10 \<le> 0" using h by simp
    ultimately show False using 1(1) h by blast
  qed
qed

lemma lookup_loop_diverges:
  assumes "t \<le> 0" and "\<forall>s. index s = None"
  shows "lookup_loop index None t = None"
proof (cases "lookup_loop index None t")
  case None
  then show ?thesis .
next
  case (Some r)
  with lookup_loop_never_returns[OF Some] assms show ?thesis by simp
qed

text \<open>
  Claim C6. The retry loop should end for every tolerance the caller supplies. At the
  tolerance 0, and at a negative one, ten times the tolerance is never 3 or more: when
  the lookups of a corner keep failing the loop never ends.
\<close>

theorem lookup_loop_zero_tolerance:
  "lookup_loop (\<lambda>t. None) None 0 = None \<and> lookup_loop (\<lambda>t. None) None (- 1) = None"
proof -
  have "lookup_loop (\<lambda>t. None) None 0 = None"
    by (rule lookup_loop_diverges) simp_all
  moreover have "lookup_loop (\<lambda>t. None) None (- 1) = None"
    by (rule lookup_loop_diverges) simp_all
  ultimately show ?thesis by blast
qed

lemma Vertex_Index_valid:
  "Vertex_Index v verts t = Some i \<Longrightarrow> i < length verts"
  by (induction verts arbitrary: i) (auto split: if_splits)

lemma lookup_loop_result_aux:
  assumes "lookup_loop index i t = Some r"
  shows "r = Some k \<longrightarrow> i = Some k \<or> (\<exists>s<3. index s = Some k)"
  using assms
proof (induction rule: lookup_loop.raw_induct[rotated 1, consumes 1])
  case (1 lookup_loop' index i t r)
  show ?case
  proof (cases "i = None \<and> t < 3")
    case True
    with 1(2) have "lookup_loop' index (index t) (t * 10) = Some r" by simp
    from 1(1)[OF this] True show ?thesis by auto
  next
    case False
    with 1(2) have "r = i" by (simp split: if_splits)
    then show ?thesis by simp
  qed
qed

lemma lookup_loop_result:
  "lookup_loop index None t = Some (Some k) \<Longrightarrow> \<exists>s<3. index s = Some k"
  using lookup_loop_result_aux[of index None t "Some k" k] by simp

lemma lookup_loop_nonpos_aux:
  assumes "lookup_loop index i t = Some r"
  shows "t \<le> 0 \<longrightarrow> r \<noteq> None"
  using assms
proof (induction rule: lookup_loop.raw_induct[rotated 1, consumes 1])
  case (1 lookup_loop' index i t r)
  show ?case
  proof (cases "i = None \<and> t < 3")
    case True
    with 1(2) have "lookup_loop' index (index t) (t * 10) = Some r" by simp
    from 1(1)[OF this] show ?thesis by auto
  next
    case False
    with 1(2) have "r = i" by (simp split: if_splits)
    with False show ?thesis by auto
  qed
qed

lemma lookup_loop_unresolved_pos:
  "lookup_loop index None t = Some None \<Longrightarrow> 0 < t"
  using lookup_loop_nonpos_aux[of index None t None] by auto

section \<open>Plotly.py: the face buffer\<close>

lemma corners_loop_props:
  assumes "corners_loop index t ws acc = Some f"
  shows "\<exists>g. f = acc @ g \<and> length g \<le> length ws
           \<and> (\<forall>i\<in>set g. \<exists>w\<in>set ws. \<exists>s<3. index w s = Some i)
           \<and> ((\<exists>w\<in>set ws. lookup_loop (index w) None t = Some None) \<longrightarrow> length g < length ws)"
  using assms
proof (induction ws arbitrary: acc)
  case Nil
  then show ?case by simp
next
  case (Cons w ws)
  show ?case
  proof (cases "lookup_loop (index w) None t")
    case None
    with Cons.prems show ?thesis by simp
  next
    case (Some r)
    show ?thesis
    proof (cases r)
      case None
      with Some Cons.prems have "corners_loop index t ws acc = Some f" by simp
      from Cons.IH[OF this] obtain g where g: "f = acc @ g" "length g \<le> length ws"
        "\<forall>i\<in>set g. \<exists>w\<in>set ws. \<exists>s<3. index w s = Some i" by blast
      then show ?thesis by auto
    next
      case (Some k)
      with \<open>lookup_loop (index w) None t = Some r\<close> Cons.prems
      have c: "corners_loop index t ws (acc @ [k]) = Some f" by simp
      from Cons.IH[OF c] obtain g where g: "f = (acc @ [k]) @ g" "length g \<le> length ws"
        "\<forall>i\<in>set g. \<exists>w\<in>set ws. \<exists>s<3. index w s = Some i"
        "(\<exists>w\<in>set ws. lookup_loop (index w) None t = Some None) \<longrightarrow> length g < length ws"
        by blast
      have k: "\<exists>s<3. index w s = Some k"
        using \<open>lookup_loop (index w) None t = Some r\<close> Some by (auto intro: lookup_loop_result)
      have w: "lookup_loop (index w) None t \<noteq> Some None"
        using \<open>lookup_loop (index w) None t = Some r\<close> Some by simp
      show ?thesis
      proof (intro exI[of _ "k # g"] conjI)
        show "f = acc @ k # g" using g(1) by simp
        show "length (k # g) \<le> length (w # ws)" using g(2) by simp
        show "\<forall>i\<in>set (k # g). \<exists>w\<in>set (w # ws). \<exists>s<3. index w s = Some i"
          using g(3) k by auto
        show "(\<exists>w\<in>set (w # ws). lookup_loop (index w) None t = Some None) \<longrightarrow>
                length (k # g) < length (w # ws)"
          using g(4) w by auto
      qed
    qed
  qed
qed

lemma corners_loop_terminates:
  "0 < t \<Longrightarrow> \<exists>f. corners_loop index t ws acc = Some f"
proof (induction ws arbitrary: acc)
  case Nil
  show ?case by simp
next
  case (Cons w ws)
  from lookup_loop_terminates[OF Cons.prems]
  obtain r where "lookup_loop (index w) None t = Some r" by blast
  with Cons.IH[OF Cons.prems] show ?case by (cases r) simp_all
qed

lemma triangles_loop_terminates:
  "0 < t \<Longrightarrow> \<exists>out. triangles_loop index t tris acc = Some out"
proof (induction tris arbitrary: acc)
  case Nil
  show ?case by simp
next
  case (Cons tri tris)
  from corners_loop_terminates[OF Cons.prems]
  obtain f where "corners_loop index t tri [] = Some f" by blast
  with Cons.IH[OF Cons.prems] show ?case by simp
qed

lemma triangles_loop_props:
  assumes "triangles_loop index t tris acc = Some out"
  shows "\<exists>new. out = acc @ new
           \<and> (\<forall>f\<in>set new. 2 < length f
                 \<and> (\<exists>tri\<in>set tris. length f \<le> length tri
                       \<and> (\<forall>i\<in>set f. \<exists>w\<in>set tri. \<exists>s<3. index w s = Some i)))"
  using assms
proof (induction tris arbitrary: acc)
  case Nil
  then show ?case by simp
next
  case (Cons tri tris)
  from Cons.prems obtain temp_f where c: "corners_loop index t tri [] = Some temp_f"
    by (cases "corners_loop index t tri []") simp_all
  from corners_loop_props[OF c] have p: "length temp_f \<le> length tri"
    "\<forall>i\<in>set temp_f. \<exists>w\<in>set tri. \<exists>s<3. index w s = Some i" by auto
  show ?case
  proof (cases "2 < length temp_f")
    case True
    with c Cons.prems have "triangles_loop index t tris (acc @ [temp_f]) = Some out" by simp
    from Cons.IH[OF this] obtain new where n: "out = (acc @ [temp_f]) @ new"
      "\<forall>f\<in>set new. 2 < length f
                 \<and> (\<exists>tri\<in>set tris. length f \<le> length tri
                       \<and> (\<forall>i\<in>set f. \<exists>w\<in>set tri. \<exists>s<3. index w s = Some i))" by blast
    show ?thesis
    proof (intro exI[of _ "temp_f # new"] conjI)
      show "out = acc @ temp_f # new" using n(1) by simp
      show "\<forall>f\<in>set (temp_f # new). 2 < length f \<and> (\<exists>tri\<in>set (tri # tris). length f \<le> length tri
                       \<and> (\<forall>i\<in>set f. \<exists>w\<in>set tri. \<exists>s<3. index w s = Some i))"
      proof (rule ballI)
        fix f assume "f \<in> set (temp_f # new)"
        then consider "f = temp_f" | "f \<in> set new" by auto
        then show "2 < length f \<and> (\<exists>tri\<in>set (tri # tris). length f \<le> length tri
                       \<and> (\<forall>i\<in>set f. \<exists>w\<in>set tri. \<exists>s<3. index w s = Some i))"
        proof cases
          case 1
          with True p show ?thesis by auto
        next
          case 2
          with n(2) show ?thesis by auto
        qed
      qed
    qed
  next
    case False
    with c Cons.prems have "triangles_loop index t tris acc = Some out" by simp
    from Cons.IH[OF this] show ?thesis by auto
  qed
qed

lemma triangles_loop_append:
  "triangles_loop index t (xs @ ys) acc =
     (case triangles_loop index t xs acc of
        None \<Rightarrow> None
      | Some m \<Rightarrow> triangles_loop index t ys m)"
  by (induction xs arbitrary: acc) (simp_all split: option.splits)

lemma triangles_loop_omit:
  assumes "length tri = 3" "w \<in> set tri" "lookup_loop (index w) None t = Some None"
  shows "triangles_loop index t (pre @ tri # post) acc = triangles_loop index t (pre @ post) acc"
proof -
  have "0 < t" using assms(3) by (rule lookup_loop_unresolved_pos)
  then obtain f where f: "corners_loop index t tri [] = Some f"
    using corners_loop_terminates by blast
  from corners_loop_props[OF f] assms have "length f < 3" by auto
  then have "\<not> 2 < length f" by simp
  with f have "\<And>m. triangles_loop index t (tri # post) m = triangles_loop index t post m"
    by simp
  then show ?thesis
    by (simp add: triangles_loop_append split: option.splits)
qed

text \<open>
  Claim C7. With a positive tolerance the face buffer is produced. Whenever it is
  produced, every face in it has more than 2 indices, and every index is below the
  number of original vertices and is the result of a successful lookup of a corner of
  one of the triangles at a tolerance below the cap 3; when every triangle has three
  corners every emitted face has three indices, none missing. A triangle of three
  corners with a corner that does not resolve within the cap adds nothing: the buffer
  is the one computed without that triangle.
\<close>

theorem DataByTopology_faces_resolved:
  "(0 < tolerance \<longrightarrow> (\<exists>out. DataByTopology_faces tp_verts triangles tolerance = Some out))
   \<and> (\<forall>out. DataByTopology_faces tp_verts triangles tolerance = Some out \<longrightarrow>
        (\<forall>f\<in>set out. 2 < length f
            \<and> (\<forall>i\<in>set f. i < length tp_verts
                  \<and> (\<exists>tri\<in>set triangles. \<exists>w_v\<in>set tri. \<exists>t<3.
                         Vertex_Index w_v tp_verts t = Some i)))
        \<and> ((\<forall>tri\<in>set triangles. length tri = 3) \<longrightarrow> (\<forall>f\<in>set out. length f = 3)))
   \<and> (\<forall>pre tri post w_v.
          triangles = pre @ tri # post \<and> length tri = 3 \<and> w_v \<in> set tri
          \<and> lookup_loop (Vertex_Index w_v tp_verts) None tolerance = Some None \<longrightarrow>
          DataByTopology_faces tp_verts triangles tolerance
            = DataByTopology_faces tp_verts (pre @ post) tolerance)"
proof (intro conjI allI impI)
  assume "0 < tolerance"
  then show "\<exists>out. DataByTopology_faces tp_verts triangles tolerance = Some out"
    unfolding DataByTopology_faces_def by (rule triangles_loop_terminates)
next
  fix out
  assume "DataByTopology_faces tp_verts triangles tolerance = Some out"
  then have "triangles_loop (\<lambda>w_v t. Vertex_Index w_v tp_verts t) tolerance triangles [] = Some out"
    by (simp add: DataByTopology_faces_def)
  from triangles_loop_props[OF this]
  have p: "\<forall>f\<in>set out. 2 < length f
             \<and> (\<exists>tri\<in>set triangles. length f \<le> length tri
                   \<and> (\<forall>i\<in>set f. \<exists>w\<in>set tri. \<exists>s<3. Vertex_Index w tp_verts s = Some i))"
    by simp
  show "\<forall>f\<in>set out. 2 < length f
            \<and> (\<forall>i\<in>set f. i < length tp_verts
                  \<and> (\<exists>tri\<in>set triangles. \<exists>w_v\<in>set tri. \<exists>t<3.
                         Vertex_Index w_v tp_verts t = Some i))"
  proof (intro ballI conjI)
    fix f assume "f \<in> set out"
    with p show "2 < length f" by blast
  next
    fix f i assume f: "f \<in> set out" and i: "i \<in> set f"
    with p obtain tri w s where t: "tri \<in> set triangles" "w \<in> set tri" "s < 3"
      "Vertex_Index w tp_verts s = Some i" by blast
    then show "i < length tp_verts" by (auto dest: Vertex_Index_valid)
    from t show "\<exists>tri\<in>set triangles. \<exists>w_v\<in>set tri. \<exists>t<3. Vertex_Index w_v tp_verts t = Some i"
      by blast
  qed
  show "\<forall>f\<in>set out. length f = 3" if "\<forall>tri\<in>set triangles. length tri = 3"
  proof
    fix f assume "f \<in> set out"
    with p obtain tri where "2 < length f" "tri \<in> set triangles" "length f \<le> length tri"
      by blast
    with that show "length f = 3" by force
  qed
next
  fix pre tri post w_v
  assume h: "triangles = pre @ tri # post \<and> length tri = 3 \<and> w_v \<in> set tri
          \<and> lookup_loop (Vertex_Index w_v tp_verts) None tolerance = Some None"
  then show "DataByTopology_faces tp_verts triangles tolerance
            = DataByTopology_faces tp_verts (pre @ post) tolerance"
    unfolding DataByTopology_faces_def
    using triangles_loop_omit[of tri w_v "\<lambda>w_v t. Vertex_Index w_v tp_verts t" tolerance pre post "[]"]
    by simp
qed

theorem DataByTopology_faces_resolved_witness:
  "DataByTopology_faces [(0, 0, 0), (1, 0, 0), (0, 1, 0), (1, 1, 0)]
     [[(0, 0, 0), (1, 0, 0), (0, 1, 0)], [(1, 0, 0), (0, 1, 0), (1, 3, 0)]] (1 / 10000)
     = Some [[0, 1, 2]]
   \<and> lookup_loop (Vertex_Index (1, 3, 0) [(0, 0, 0), (1, 0, 0), (0, 1, 0), (1, 1, 0)])
        None (1 / 10000) = Some None
   \<and> DataByTopology_faces [(0, 0, 0), (1, 0, 0), (0, 1, 0), (1, 1, 0)]
        [[(0, 0, 0), (1, 0, 0), (0, 1, 0)]] (1 / 10000)
     = Some [[0, 1, 2]]"
proof -
  let ?V = "[(0, 0, 0), (1, 0, 0), (0, 1, 0), (1, 1, 0)] :: vertex list"
  let ?T1 = "[(0, 0, 0), (1, 0, 0), (0, 1, 0)] :: vertex list"
  let ?T2 = "[(1, 0, 0), (0, 1, 0), (1, 3, 0)] :: vertex list"
  have a: "DataByTopology_faces ?V [?T1, ?T2] (1 / 10000) = Some [[0, 1, 2]]"
    by code_simp
  have b: "lookup_loop (Vertex_Index (1, 3, 0) ?V) None (1 / 10000) = Some None"
    by code_simp
  have h: "[?T1, ?T2] = [?T1] @ ?T2 # [] \<and> length ?T2 = 3 \<and> (1, 3, 0) \<in> set ?T2
             \<and> lookup_loop (Vertex_Index (1, 3, 0) ?V) None (1 / 10000) = Some None"
    using b by simp
  from DataByTopology_faces_resolved[of "1 / 10000" ?V "[?T1, ?T2]"]
  have "\<forall>pre tri post w_v.
          [?T1, ?T2] = pre @ tri # post \<and> length tri = 3 \<and> w_v \<in> set tri
          \<and> lookup_loop (Vertex_Index w_v ?V) None (1 / 10000) = Some None \<longrightarrow>
          DataByTopology_faces ?V [?T1, ?T2] (1 / 10000)
            = DataByTopology_faces ?V (pre @ post) (1 / 10000)"
    by blast
  with h have "DataByTopology_faces ?V [?T1, ?T2] (1 / 10000)
                 = DataByTopology_faces ?V ([?T1] @ []) (1 / 10000)"
    by blast
  with a have c: "DataByTopology_faces ?V [?T1] (1 / 10000) = Some [[0, 1, 2]]"
    by simp
  from a b c show ?thesis by blast
qed

section \<open>Speckle.py: remote failures\<close>

lemma SpeckleCommitDelete_unconfirmed:
  "\<not> truthy confirm \<Longrightarrow> SpeckleCommitDelete client stream commit confirm = (False, [])"
  by (simp add: SpeckleCommitDelete_def)

lemma SpeckleCommitDelete_calls:
  "truthy confirm \<Longrightarrow>
   snd (SpeckleCommitDelete client stream commit confirm)
     = [Commit_delete (stream_id stream) (commit_id commit)]"
  by (simp add: SpeckleCommitDelete_def split: sum.splits)

lemma SpeckleCommitDelete_caught:
  "truthy confirm \<Longrightarrow> commit_delete client (stream_id stream) (commit_id commit) = Inl e \<Longrightarrow>
   fst (SpeckleCommitDelete client stream commit confirm) = False"
  by (simp add: SpeckleCommitDelete_def)

lemma SpeckleCommitDelete_returned:
  "truthy confirm \<Longrightarrow> commit_delete client (stream_id stream) (commit_id commit) = Inr deleted \<Longrightarrow>
   fst (SpeckleCommitDelete client stream commit confirm) = deleted"
  by (simp add: SpeckleCommitDelete_def)

lemma branch_get_loop_returns:
  "branch_get_loop client sid bList acc = Inr v \<Longrightarrow>
   \<exists>new. v = acc @ new
     \<and> list_all2 (\<lambda>b br. branch_get client sid (branch_name b) = Inr br) bList new"
proof (induction bList arbitrary: acc)
  case Nil
  then show ?case by simp
next
  case (Cons b bList)
  from Cons.prems obtain br where br: "branch_get client sid (branch_name b) = Inr br"
    by (cases "branch_get client sid (branch_name b)") simp_all
  with Cons.prems have "branch_get_loop client sid bList (acc @ [br]) = Inr v" by simp
  from Cons.IH[OF this] obtain new where "v = (acc @ [br]) @ new"
    "list_all2 (\<lambda>b br. branch_get client sid (branch_name b) = Inr br) bList new"
    by blast
  with br show ?case by (intro exI[of _ "br # new"]) simp
qed

lemma BranchesByStream_returns:
  assumes "BranchesByStream client stream = Inr v"
  shows "\<exists>bList. branch_list client (stream_id stream) = Inr bList
           \<and> list_all2 (\<lambda>b br. branch_get client (stream_id stream) (branch_name b) = Inr br)
                bList v"
proof -
  from assms obtain bList where b: "branch_list client (stream_id stream) = Inr bList"
    by (cases "branch_list client (stream_id stream)") (simp_all add: BranchesByStream_def)
  with assms have "branch_get_loop client (stream_id stream) bList [] = Inr v"
    by (simp add: BranchesByStream_def)
  from branch_get_loop_returns[OF this] b show ?thesis by auto
qed

lemma branch_get_loop_raises:
  "branch_get_loop client sid bList acc = Inl e \<Longrightarrow>
   \<exists>b\<in>set bList. branch_get client sid (branch_name b) = Inl e"
proof (induction bList arbitrary: acc)
  case Nil
  then show ?case by simp
next
  case (Cons b bList)
  show ?case
  proof (cases "branch_get client sid (branch_name b)")
    case (Inl e')
    with Cons.prems show ?thesis by simp
  next
    case (Inr br)
    with Cons.prems have "branch_get_loop client sid bList (acc @ [br]) = Inl e" by simp
    from Cons.IH[OF this] show ?thesis by auto
  qed
qed

lemma BranchesByStream_raises:
  assumes "BranchesByStream client stream = Inl e"
  shows "branch_list client (stream_id stream) = Inl e
         \<or> (\<exists>bList. branch_list client (stream_id stream) = Inr bList
               \<and> (\<exists>b\<in>set bList. branch_get client (stream_id stream) (branch_name b) = Inl e))"
proof (cases "branch_list client (stream_id stream)")
  case (Inl e')
  with assms show ?thesis by (simp add: BranchesByStream_def)
next
  case (Inr bList)
  with assms have "branch_get_loop client (stream_id stream) bList [] = Inl e"
    by (simp add: BranchesByStream_def)
  from branch_get_loop_raises[OF this] Inr show ?thesis by blast
qed

lemma ClientByURL_returns_all:
  assumes "ClientByURL api url token = Inr r"
  shows "case (case token of None \<Rightarrow> getpass api | Some t \<Rightarrow> Some t) of
           None \<Rightarrow> r = None
         | Some t \<Rightarrow> (\<exists>c. SpeckleClient api url = Inr c
                          \<and> authenticate_with_token c t = Inr () \<and> r = Some c)"
  using assms
  by (auto simp add: ClientByURL_def Let_def split: option.splits sum.splits)

lemma ClientByURL_raises:
  assumes "ClientByURL api url token = Inl e"
  shows "\<exists>t. (case token of None \<Rightarrow> getpass api | Some t \<Rightarrow> Some t) = Some t
           \<and> (SpeckleClient api url = Inl e
                \<or> (\<exists>c. SpeckleClient api url = Inr c \<and> authenticate_with_token c t = Inl e))"
  using assms
  by (auto simp add: ClientByURL_def Let_def split: option.splits sum.splits)

lemma SpeckleStreamByURL_returns_all:
  assumes "SpeckleStreamByURL api url token = Inr v"
  shows "\<exists>w c streams. StreamWrapper api url = Inr w \<and> get_client w = Inr c
           \<and> authenticate_with_token c token = Inr () \<and> stream_list c = Inr streams
           \<and> v = streamByID streams (wrapper_stream_id w)"
  using assms
  by (auto simp add: SpeckleStreamByURL_def split: sum.splits)

lemma SpeckleStreamByURL_raises:
  assumes "SpeckleStreamByURL api url token = Inl e"
  shows "StreamWrapper api url = Inl e
         \<or> (\<exists>w. StreamWrapper api url = Inr w
               \<and> (get_client w = Inl e
                    \<or> (\<exists>c. get_client w = Inr c
                          \<and> (authenticate_with_token c token = Inl e
                               \<or> stream_list c = Inl e))))"
  using assms
  by (auto simp add: SpeckleStreamByURL_def split: sum.splits)

lemma SpeckleCommitByURL_returns_all:
  assumes "SpeckleCommitByURL api url token = Inr v"
  shows "\<exists>w c streams commits. StreamWrapper api url = Inr w \<and> get_client w = Inr c
           \<and> authenticate_with_token c token = Inr () \<and> stream_list c = Inr streams
           \<and> commit_list c (wrapper_stream_id w) = Inr commits
           \<and> v = commitByID commits (wrapper_commit_id w)"
  using assms
  by (auto simp add: SpeckleCommitByURL_def split: sum.splits)

lemma SpeckleCommitByURL_raises:
  assumes "SpeckleCommitByURL api url token = Inl e"
  shows "StreamWrapper api url = Inl e
         \<or> (\<exists>w. StreamWrapper api url = Inr w
               \<and> (get_client w = Inl e
                    \<or> (\<exists>c. get_client w = Inr c
                          \<and> (authenticate_with_token c token = Inl e
                               \<or> stream_list c = Inl e
                               \<or> commit_list c (wrapper_stream_id w) = Inl e))))"
  using assms
  by (auto simp add: SpeckleCommitByURL_def split: sum.splits)

lemma SpeckleGlobalsByStream_returns_all:
  assumes "SpeckleGlobalsByStream api processBase client stream = Inr v"
  shows "\<exists>tr br. ServerTransport api (stream_id stream) client = Inr tr
           \<and> branch_get client (stream_id stream) ''globals'' = Inr br
           \<and> (case commits_items br of
                 [] \<Rightarrow> v = None
               | latest # _ \<Rightarrow>
                   (\<exists>g. operations_receive api (referencedObject latest) tr = Inr g
                         \<and> v = Some (processBase g)))"
  using assms
  by (auto simp add: SpeckleGlobalsByStream_def split: sum.splits list.splits)

lemma SpeckleGlobalsByStream_raises:
  assumes "SpeckleGlobalsByStream api processBase client stream = Inl e"
  shows "ServerTransport api (stream_id stream) client = Inl e
         \<or> (\<exists>tr. ServerTransport api (stream_id stream) client = Inr tr
               \<and> (branch_get client (stream_id stream) ''globals'' = Inl e
                    \<or> (\<exists>br latest rest. branch_get client (stream_id stream) ''globals'' = Inr br
                          \<and> commits_items br = latest # rest
                          \<and> operations_receive api (referencedObject latest) tr = Inl e)))"
  using assms
  by (auto simp add: SpeckleGlobalsByStream_def split: sum.splits list.splits)

lemma send_and_commit_not_run:
  "\<not> truthy run \<Longrightarrow>
   send_and_commit api client stream branch branch_arg message key data run = Inr None"
  by (simp add: send_and_commit_def)

lemma send_and_commit_returns_all:
  assumes "truthy run"
    and "send_and_commit api client stream branch branch_arg message key data run = Inr v"
  shows "\<exists>tr obj_id cid. ServerTransport api (stream_id stream) client = Inr tr
           \<and> operations_send api [(key, data)] [tr] = Inr obj_id
           \<and> commit_create client (stream_id stream) obj_id branch_arg message = Inr cid
           \<and> v = commitByID (commits_items branch) cid"
  using assms
  by (auto simp add: send_and_commit_def Let_def split: sum.splits)

lemma send_and_commit_raises:
  assumes "send_and_commit api client stream branch branch_arg message key data run = Inl e"
  shows "truthy run
         \<and> (ServerTransport api (stream_id stream) client = Inl e
              \<or> (\<exists>tr. ServerTransport api (stream_id stream) client = Inr tr
                    \<and> (operations_send api [(key, data)] [tr] = Inl e
                         \<or> (\<exists>obj_id. operations_send api [(key, data)] [tr] = Inr obj_id
                               \<and> commit_create client (stream_id stream) obj_id branch_arg message
                                   = Inl e))))"
  using assms
  by (auto simp add: send_and_commit_def Let_def split: sum.splits if_splits)

lemma Object_returns_all:
  assumes "Object api mesh_to_native client stream branch commit = Inr v"
  shows "\<exists>tr obj. ServerTransport api (stream_id stream) client = Inr tr
           \<and> operations_receive api (referencedObject commit) tr = Inr obj
           \<and> v = mesh_to_native obj"
  using assms
  by (auto simp add: Object_def split: sum.splits)

lemma Object_raises:
  assumes "Object api mesh_to_native client stream branch commit = Inl e"
  shows "ServerTransport api (stream_id stream) client = Inl e
         \<or> (\<exists>tr. ServerTransport api (stream_id stream) client = Inr tr
               \<and> operations_receive api (referencedObject commit) tr = Inl e)"
  using assms
  by (auto simp add: Object_def split: sum.splits)

text \<open>
  Claim C8. \<open>SpeckleCommitDelete\<close> returns \<open>False\<close> with no remote call when \<open>confirm\<close> is
  falsy; when it is truthy it makes the one delete call, returns what the call returns,
  and returns \<open>False\<close> when the call raises. No other remote operation of the module
  catches a remote failure. For each of them: when it returns a value, every remote call
  it made returned one and the value is the one computed from those results; when it
  raises, what it raises is what the first failing remote call raised. \<open>Send\<close> and
  \<open>SpeckleSendObjects\<close> return \<open>None\<close> with no remote call when \<open>run\<close> is falsy, and
  \<open>ClientByURL\<close> returns \<open>None\<close> with no remote call when there is no token.
\<close>

theorem remote_failure_caught_only_by_delete:
  "(\<not> truthy confirm \<longrightarrow> SpeckleCommitDelete client stream commit confirm = (False, []))
   \<and> (truthy confirm \<longrightarrow>
        snd (SpeckleCommitDelete client stream commit confirm)
          = [Commit_delete (stream_id stream) (commit_id commit)])
   \<and> (truthy confirm \<and> commit_delete client (stream_id stream) (commit_id commit) = Inl e \<longrightarrow>
        fst (SpeckleCommitDelete client stream commit confirm) = False)
   \<and> (truthy confirm \<and> commit_delete client (stream_id stream) (commit_id commit) = Inr deleted \<longrightarrow>
        fst (SpeckleCommitDelete client stream commit confirm) = deleted)
   \<and> StreamsByClient client = stream_list client
   \<and> (\<forall>v. BranchesByStream client stream = Inr v \<longrightarrow>
        (\<exists>bList. branch_list client (stream_id stream) = Inr bList
           \<and> list_all2 (\<lambda>b br. branch_get client (stream_id stream) (branch_name b) = Inr br)
                bList v))
   \<and> (\<forall>x. BranchesByStream client stream = Inl x \<longrightarrow>
        branch_list client (stream_id stream) = Inl x
        \<or> (\<exists>bList. branch_list client (stream_id stream) = Inr bList
              \<and> (\<exists>b\<in>set bList. branch_get client (stream_id stream) (branch_name b) = Inl x)))
   \<and> (\<forall>r. ClientByURL api url token = Inr r \<longrightarrow>
        (case (case token of None \<Rightarrow> getpass api | Some t \<Rightarrow> Some t) of
           None \<Rightarrow> r = None
         | Some t \<Rightarrow> (\<exists>c. SpeckleClient api url = Inr c
                          \<and> authenticate_with_token c t = Inr () \<and> r = Some c)))
   \<and> (\<forall>x. ClientByURL api url token = Inl x \<longrightarrow>
        (\<exists>t. (case token of None \<Rightarrow> getpass api | Some t \<Rightarrow> Some t) = Some t
           \<and> (SpeckleClient api url = Inl x
                \<or> (\<exists>c. SpeckleClient api url = Inr c \<and> authenticate_with_token c t = Inl x))))
   \<and> (\<forall>v. SpeckleStreamByURL api url tok = Inr v \<longrightarrow>
        (\<exists>w c streams. StreamWrapper api url = Inr w \<and> get_client w = Inr c
           \<and> authenticate_with_token c tok = Inr () \<and> stream_list c = Inr streams
           \<and> v = streamByID streams (wrapper_stream_id w)))
   \<and> (\<forall>x. SpeckleStreamByURL api url tok = Inl x \<longrightarrow>
        StreamWrapper api url = Inl x
        \<or> (\<exists>w. StreamWrapper api url = Inr w
              \<and> (get_client w = Inl x
                   \<or> (\<exists>c. get_client w = Inr c
                         \<and> (authenticate_with_token c tok = Inl x \<or> stream_list c = Inl x)))))
   \<and> (\<forall>v. SpeckleCommitByURL api url tok = Inr v \<longrightarrow>
        (\<exists>w c streams commits. StreamWrapper api url = Inr w \<and> get_client w = Inr c
           \<and> authenticate_with_token c tok = Inr () \<and> stream_list c = Inr streams
           \<and> commit_list c (wrapper_stream_id w) = Inr commits
           \<and> v = commitByID commits (wrapper_commit_id w)))
   \<and> (\<forall>x. SpeckleCommitByURL api url tok = Inl x \<longrightarrow>
        StreamWrapper api url = Inl x
        \<or> (\<exists>w. StreamWrapper api url = Inr w
              \<and> (get_client w = Inl x
                   \<or> (\<exists>c. get_client w = Inr c
                         \<and> (authenticate_with_token c tok = Inl x
                              \<or> stream_list c = Inl x
                              \<or> commit_list c (wrapper_stream_id w) = Inl x)))))
   \<and> (\<forall>v. SpeckleGlobalsByStream api processBase client stream = Inr v \<longrightarrow>
        (\<exists>tr br. ServerTransport api (stream_id stream) client = Inr tr
           \<and> branch_get client (stream_id stream) ''globals'' = Inr br
           \<and> (case commits_items br of
                 [] \<Rightarrow> v = None
               | latest # _ \<Rightarrow>
                   (\<exists>g. operations_receive api (referencedObject latest) tr = Inr g
                         \<and> v = Some (processBase g)))))
   \<and> (\<forall>x. SpeckleGlobalsByStream api processBase client stream = Inl x \<longrightarrow>
        ServerTransport api (stream_id stream) client = Inl x
        \<or> (\<exists>tr. ServerTransport api (stream_id stream) client = Inr tr
              \<and> (branch_get client (stream_id stream) ''globals'' = Inl x
                   \<or> (\<exists>br latest rest.
                         branch_get client (stream_id stream) ''globals'' = Inr br
                         \<and> commits_items br = latest # rest
                         \<and> operations_receive api (referencedObject latest) tr = Inl x))))
   \<and> (\<not> truthy run \<longrightarrow>
        Send api client stream branch description message key data run = Inr None)
   \<and> (\<forall>v. truthy run \<and> Send api client stream branch description message key data run = Inr v \<longrightarrow>
        (\<exists>tr obj_id cid. ServerTransport api (stream_id stream) client = Inr tr
           \<and> operations_send api [(key, data)] [tr] = Inr obj_id
           \<and> commit_create client (stream_id stream) obj_id key message = Inr cid
           \<and> v = commitByID (commits_items branch) cid))
   \<and> (\<forall>x. Send api client stream branch description message key data run = Inl x \<longrightarrow>
        truthy run
        \<and> (ServerTransport api (stream_id stream) client = Inl x
             \<or> (\<exists>tr. ServerTransport api (stream_id stream) client = Inr tr
                   \<and> (operations_send api [(key, data)] [tr] = Inl x
                        \<or> (\<exists>obj_id. operations_send api [(key, data)] [tr] = Inr obj_id
                              \<and> commit_create client (stream_id stream) obj_id key message
                                  = Inl x)))))
   \<and> (\<not> truthy run \<longrightarrow>
        SpeckleSendObjects api client stream branch description message key data run = Inr None)
   \<and> (\<forall>v. truthy run
           \<and> SpeckleSendObjects api client stream branch description message key data run = Inr v \<longrightarrow>
        (\<exists>tr obj_id cid. ServerTransport api (stream_id stream) client = Inr tr
           \<and> operations_send api [(key, data)] [tr] = Inr obj_id
           \<and> commit_create client (stream_id stream) obj_id ''gbxml'' message = Inr cid
           \<and> v = commitByID (commits_items branch) cid))
   \<and> (\<forall>x. SpeckleSendObjects api client stream branch description message key data run = Inl x \<longrightarrow>
        truthy run
        \<and> (ServerTransport api (stream_id stream) client = Inl x
             \<or> (\<exists>tr. ServerTransport api (stream_id stream) client = Inr tr
                   \<and> (operations_send api [(key, data)] [tr] = Inl x
                        \<or> (\<exists>obj_id. operations_send api [(key, data)] [tr] = Inr obj_id
                              \<and> commit_create client (stream_id stream) obj_id ''gbxml'' message
                                  = Inl x)))))
   \<and> (\<forall>v. Object api mesh_to_native client stream branch commit = Inr v \<longrightarrow>
        (\<exists>tr obj. ServerTransport api (stream_id stream) client = Inr tr
           \<and> operations_receive api (referencedObject commit) tr = Inr obj
           \<and> v = mesh_to_native obj))
   \<and> (\<forall>x. Object api mesh_to_native client stream branch commit = Inl x \<longrightarrow>
        ServerTransport api (stream_id stream) client = Inl x
        \<or> (\<exists>tr. ServerTransport api (stream_id stream) client = Inr tr
              \<and> operations_receive api (referencedObject commit) tr = Inl x))"
  apply (intro conjI)
  subgoal by (simp add: SpeckleCommitDelete_unconfirmed)
  subgoal by (simp add: SpeckleCommitDelete_calls)
  subgoal by (simp add: SpeckleCommitDelete_caught)
  subgoal by (simp add: SpeckleCommitDelete_returned)
  subgoal by (simp add: StreamsByClient_def)
  subgoal by (intro allI impI) (rule BranchesByStream_returns)
  subgoal by (intro allI impI) (rule BranchesByStream_raises)
  subgoal by (intro allI impI) (rule ClientByURL_returns_all)
  subgoal by (intro allI impI) (rule ClientByURL_raises)
  subgoal by (intro allI impI) (rule SpeckleStreamByURL_returns_all)
  subgoal by (intro allI impI) (rule SpeckleStreamByURL_raises)
  subgoal by (intro allI impI) (rule SpeckleCommitByURL_returns_all)
  subgoal by (intro allI impI) (rule SpeckleCommitByURL_raises)
  subgoal by (intro allI impI) (rule SpeckleGlobalsByStream_returns_all)
  subgoal by (intro allI impI) (rule SpeckleGlobalsByStream_raises)
  subgoal by (simp add: Send_def send_and_commit_not_run)
  subgoal by (intro allI impI, elim conjE) (rule send_and_commit_returns_all, simp_all add: Send_def)
  subgoal by (intro allI impI) (rule send_and_commit_raises, simp add: Send_def)
  subgoal by (simp add: SpeckleSendObjects_def send_and_commit_not_run)
  subgoal by (intro allI impI, elim conjE)
      (rule send_and_commit_returns_all, simp_all add: SpeckleSendObjects_def)
  subgoal by (intro allI impI) (rule send_and_commit_raises, simp add: SpeckleSendObjects_def)
  subgoal by (intro allI impI) (rule Object_returns_all)
  subgoal by (intro allI impI) (rule Object_raises)
  done

theorem remote_failure_caught_only_by_delete_witness:
  "SpeckleCommitDelete
      \<lparr>branch_list = \<lambda>_. Inl (RemoteException ''down''),
       branch_get = \<lambda>_ _. Inl (RemoteException ''down''),
       stream_list = Inl (RemoteException ''down''),
       commit_list = \<lambda>_. Inl (RemoteException ''down''),
       commit_create = \<lambda>_ _ _ _. Inl (RemoteException ''down''),
       commit_delete = \<lambda>_ _. Inl (RemoteException ''down''),
       authenticate_with_token = \<lambda>_. Inl (RemoteException ''down'')\<rparr>
      \<lparr>stream_id = ''s1''\<rparr> \<lparr>commit_id = ''c1'', referencedObject = ''o1''\<rparr> (PyBool True)
     = (False, [Commit_delete ''s1'' ''c1''])
   \<and> SpeckleCommitDelete
      \<lparr>branch_list = \<lambda>_. Inl (RemoteException ''down''),
       branch_get = \<lambda>_ _. Inl (RemoteException ''down''),
       stream_list = Inl (RemoteException ''down''),
       commit_list = \<lambda>_. Inl (RemoteException ''down''),
       commit_create = \<lambda>_ _ _ _. Inl (RemoteException ''down''),
       commit_delete = \<lambda>_ _. Inl (RemoteException ''down''),
       authenticate_with_token = \<lambda>_. Inl (RemoteException ''down'')\<rparr>
      \<lparr>stream_id = ''s1''\<rparr> \<lparr>commit_id = ''c1'', referencedObject = ''o1''\<rparr> PyNone
     = (False, [])
   \<and> StreamsByClient
      \<lparr>branch_list = \<lambda>_. Inl (RemoteException ''down''),
       branch_get = \<lambda>_ _. Inl (RemoteException ''down''),
       stream_list = Inl (RemoteException ''down''),
       commit_list = \<lambda>_. Inl (RemoteException ''down''),
       commit_create = \<lambda>_ _ _ _. Inl (RemoteException ''down''),
       commit_delete = \<lambda>_ _. Inl (RemoteException ''down''),
       authenticate_with_token = \<lambda>_. Inl (RemoteException ''down'')\<rparr>
     = Inl (RemoteException ''down'')
   \<and> ClientByURL
      \<lparr>SpeckleClient = \<lambda>_. Inl (RemoteException ''down''),
       StreamWrapper = \<lambda>_. Inl (RemoteException ''down''),
       ServerTransport = \<lambda>_ _. Inl (RemoteException ''down''),
       operations_send = \<lambda>(_ :: (string \<times> unit) list) _. Inl (RemoteException ''down''),
       operations_receive = \<lambda>_ _. (Inl (RemoteException ''down'') :: remote_exn + unit),
       getpass = None\<rparr> ''speckle.xyz'' (Some ''tok'')
     = Inl (RemoteException ''down'')"
proof -
  let ?c = "\<lparr>branch_list = \<lambda>_. Inl (RemoteException ''down''),
       branch_get = \<lambda>_ _. Inl (RemoteException ''down''),
       stream_list = Inl (RemoteException ''down''),
       commit_list = \<lambda>_. Inl (RemoteException ''down''),
       commit_create = \<lambda>_ _ _ _. Inl (RemoteException ''down''),
       commit_delete = \<lambda>_ _. Inl (RemoteException ''down''),
       authenticate_with_token = \<lambda>_. Inl (RemoteException ''down'')\<rparr>"
  let ?api = "\<lparr>SpeckleClient = \<lambda>_. Inl (RemoteException ''down''),
       StreamWrapper = \<lambda>_. Inl (RemoteException ''down''),
       ServerTransport = \<lambda>_ _. Inl (RemoteException ''down''),
       operations_send = \<lambda>(_ :: (string \<times> unit) list) _. Inl (RemoteException ''down''),
       operations_receive = \<lambda>_ _. (Inl (RemoteException ''down'') :: remote_exn + unit),
       getpass = None\<rparr>"
  let ?s = "\<lparr>stream_id = ''s1''\<rparr>"
  let ?k = "\<lparr>commit_id = ''c1'', referencedObject = ''o1''\<rparr>"
  have t: "truthy (PyBool True)" and f: "\<not> truthy PyNone" by simp_all
  have d: "commit_delete ?c (stream_id ?s) (commit_id ?k) = Inl (RemoteException ''down'')"
    by simp
  note T = remote_failure_caught_only_by_delete
    [where client = ?c and stream = ?s and commit = ?k and e = "RemoteException ''down''"
       and api = ?api and url = "''speckle.xyz''" and token = "Some ''tok''"]
  note T1 = T[where confirm = "PyBool True"]
  have a: "snd (SpeckleCommitDelete ?c ?s ?k (PyBool True))
             = [Commit_delete (stream_id ?s) (commit_id ?k)]"
    by (rule T1[THEN conjunct2, THEN conjunct1, THEN mp, OF t])
  have b: "fst (SpeckleCommitDelete ?c ?s ?k (PyBool True)) = False"
    by (rule T1[THEN conjunct2, THEN conjunct2, THEN conjunct1, THEN mp, OF conjI[OF t d]])
  have c: "SpeckleCommitDelete ?c ?s ?k PyNone = (False, [])"
    by (rule T[where confirm = PyNone, THEN conjunct1, THEN mp, OF f])
  have "StreamsByClient ?c = stream_list ?c"
    by (rule T1[THEN conjunct2, THEN conjunct2, THEN conjunct2, THEN conjunct2, THEN conjunct1])
  then have s: "StreamsByClient ?c = Inl (RemoteException ''down'')"
    by simp
  note rest = T1[THEN conjunct2, THEN conjunct2, THEN conjunct2, THEN conjunct2, THEN conjunct2,
      THEN conjunct2, THEN conjunct2]
  have u: "ClientByURL ?api ''speckle.xyz'' (Some ''tok'') = Inl (RemoteException ''down'')"
  proof (cases "ClientByURL ?api ''speckle.xyz'' (Some ''tok'')")
    case (Inr r)
    from rest[THEN conjunct1, THEN spec, THEN mp, OF Inr]
    show ?thesis by simp
  next
    case (Inl x)
    from rest[THEN conjunct2, THEN conjunct1, THEN spec, THEN mp, OF Inl]
    have "x = RemoteException ''down''" by simp
    with Inl show ?thesis by simp
  qed
  from a b have "SpeckleCommitDelete ?c ?s ?k (PyBool True) = (False, [Commit_delete ''s1'' ''c1''])"
    by (simp add: prod_eq_iff)
  with c s u show ?thesis by blast
qed

end
